theory Spec2Isabelle
  imports Main "HOL-Library.Sublist"
begin

section \<open>The operating system as package logh uses it\<close>

text \<open>
  The logger calls \<^verbatim>\<open>os.Stat\<close>, \<^verbatim>\<open>os.Remove\<close>, \<^verbatim>\<open>os.OpenFile\<close>,
  \<^verbatim>\<open>(*os.File).Close\<close> and, through package \<^verbatim>\<open>log\<close>, \<^verbatim>\<open>(*os.File).Write\<close>.
  They are modelled on a small file system:
  \<^item> \<open>entries\<close> maps a path to the number of the file it names, \<open>inodes\<close> holds the
    bytes of every file ever created (a removed file keeps its bytes, as an unlinked file
    does while a handle is open on it);
  \<^item> \<open>handles\<close> is the table of every \<^verbatim>\<open>*os.File\<close> returned by \<^verbatim>\<open>os.OpenFile\<close>: the file it
    is open on and whether it is still open;
  \<^item> \<open>stdout_bytes\<close> and \<open>stdout_open\<close> are the standard output stream, which is both
    \<^verbatim>\<open>os.Stdout\<close> (the target of \<^verbatim>\<open>fmt.Printf\<close>) and the initial value of the package
    variable \<^verbatim>\<open>defaultOutput\<close>;
  \<^item> \<open>stat_denied\<close>, \<open>remove_denied\<close>, \<open>open_denied\<close> and \<open>mkdir_denied\<close> say on which
    paths the call fails for a reason other than a missing file (a permission, a
    read-only volume); they are parameters of the environment;
  \<^item> \<open>hdr\<close> is the date, time and source position that package \<^verbatim>\<open>log\<close> renders for the
    given flags at the moment of the call.
  A write to an open handle succeeds; every file is opened with \<^verbatim>\<open>O_APPEND\<close>, so a write
  adds the bytes at the end.
\<close>

type_synonym path = string

datatype fileptr = Stdout | Fd nat

datatype oserr = ENOENT | EACCES | ErrClosed | ErrInvalid

record world =
  entries :: "path \<rightharpoonup> nat"
  inodes :: "string list"
  handles :: "(nat \<times> bool) list"
  stdout_bytes :: string
  stdout_open :: bool
  stat_denied :: "path \<Rightarrow> bool"
  remove_denied :: "path \<Rightarrow> bool"
  open_denied :: "path \<Rightarrow> bool"
  mkdir_denied :: "path \<Rightarrow> bool"
  hdr :: "int \<Rightarrow> string"

text \<open>\<^verbatim>\<open>os.Stat(p)\<close> followed by \<^verbatim>\<open>fi.Size()\<close>.\<close>

definition os_Stat :: "world \<Rightarrow> path \<Rightarrow> oserr + int" where
  "os_Stat w p =
     (if stat_denied w p then Inl EACCES
      else case entries w p of
             None \<Rightarrow> Inl ENOENT
           | Some i \<Rightarrow> Inr (int (length (inodes w ! i))))"

text \<open>\<^verbatim>\<open>os.Remove(p)\<close>: the name goes, the bytes stay with the handles open on them.\<close>

definition os_Remove :: "world \<Rightarrow> path \<Rightarrow> oserr + world" where
  "os_Remove w p =
     (if remove_denied w p then Inl EACCES
      else case entries w p of
             None \<Rightarrow> Inl ENOENT
           | Some i \<Rightarrow> Inr (w\<lparr>entries := (entries w)(p := None)\<rparr>))"

text \<open>\<^verbatim>\<open>os.IsNotExist(err)\<close>.\<close>

definition os_IsNotExist :: "oserr \<Rightarrow> bool" where
  "os_IsNotExist e = (e = ENOENT)"

text \<open>
  \<^verbatim>\<open>os.OpenFile(p, os.O_APPEND|os.O_CREATE|os.O_WRONLY, 0644)\<close>: an existing file is
  opened as it is, a missing one is created empty. The new handle is the next entry of
  the handle table.
\<close>

definition os_OpenFile :: "world \<Rightarrow> path \<Rightarrow> oserr + (world \<times> fileptr)" where
  "os_OpenFile w p =
     (if open_denied w p then Inl EACCES
      else case entries w p of
             Some i \<Rightarrow>
               Inr (w\<lparr>handles := handles w @ [(i, True)]\<rparr>, Fd (length (handles w)))
           | None \<Rightarrow>
               Inr (w\<lparr>entries := (entries w)(p \<mapsto> length (inodes w)),
                       inodes := inodes w @ [[]],
                       handles := handles w @ [(length (inodes w), True)]\<rparr>,
                    Fd (length (handles w))))"

text \<open>Whether a handle is open (a number outside the handle table is no open handle).\<close>

fun is_open :: "world \<Rightarrow> fileptr \<Rightarrow> bool" where
  "is_open w Stdout = stdout_open w"
| "is_open w (Fd n) = (n < length (handles w) \<and> snd (handles w ! n))"

text \<open>
  \<^verbatim>\<open>(*os.File).Close\<close>: ``Close will return an error if it has already been called''
  (package os); the handle is closed afterwards in either case.
\<close>

fun file_Close :: "world \<Rightarrow> fileptr \<Rightarrow> oserr + world" where
  "file_Close w Stdout =
     (if stdout_open w then Inr (w\<lparr>stdout_open := False\<rparr>) else Inl ErrClosed)"
| "file_Close w (Fd n) =
     (if n < length (handles w) \<and> snd (handles w ! n)
      then Inr (w\<lparr>handles := (handles w)[n := (fst (handles w ! n), False)]\<rparr>)
      else Inl ErrClosed)"

text \<open>
  \<^verbatim>\<open>(*os.File).Write\<close> on a possibly nil handle: \<^verbatim>\<open>ErrInvalid\<close> on nil, \<^verbatim>\<open>ErrClosed\<close> on a
  closed handle, the bytes appended otherwise.
\<close>

fun file_Write :: "world \<Rightarrow> fileptr option \<Rightarrow> string \<Rightarrow> oserr + world" where
  "file_Write w None bs = Inl ErrInvalid"
| "file_Write w (Some Stdout) bs =
     (if stdout_open w then Inr (w\<lparr>stdout_bytes := stdout_bytes w @ bs\<rparr>)
      else Inl ErrClosed)"
| "file_Write w (Some (Fd n)) bs =
     (if n < length (handles w) \<and> snd (handles w ! n)
      then Inr (w\<lparr>inodes := (inodes w)[fst (handles w ! n) :=
                                inodes w ! fst (handles w ! n) @ bs]\<rparr>)
      else Inl ErrClosed)"

text \<open>The bytes that have reached the stream or file behind a handle.\<close>

fun bytes_at :: "world \<Rightarrow> fileptr \<Rightarrow> string" where
  "bytes_at w Stdout = stdout_bytes w"
| "bytes_at w (Fd n) = inodes w ! fst (handles w ! n)"

text \<open>The bytes of the file a path names, if it names one.\<close>

definition file_at :: "world \<Rightarrow> path \<Rightarrow> string option" where
  "file_at w p = map_option (\<lambda>i. inodes w ! i) (entries w p)"


text \<open>\<^verbatim>\<open>fmt.Printf\<close>: the text goes to \<^verbatim>\<open>os.Stdout\<close>, the error is dropped.\<close>

definition fmt_Printf :: "world \<Rightarrow> string \<Rightarrow> world" where
  "fmt_Printf w s = (case file_Write w (Some Stdout) s of Inl e \<Rightarrow> w | Inr w' \<Rightarrow> w')"

subsection \<open>\<^verbatim>\<open>strconv.Itoa\<close>\<close>

definition digit :: "nat \<Rightarrow> char" where
  "digit d = ''0123456789'' ! d"

function natstr :: "nat \<Rightarrow> string" where
  "natstr n = (if n < 10 then [digit n] else natstr (n div 10) @ [digit (n mod 10)])"
  by pat_completeness auto
termination
  by (relation "measure id") auto

declare natstr.simps [simp del]

definition Itoa :: "int \<Rightarrow> string" where
  "Itoa i = (if i < 0 then CHR ''-'' # natstr (nat (- i)) else natstr (nat i))"

subsection \<open>Package \<^verbatim>\<open>log\<close>\<close>

text \<open>
  A \<^verbatim>\<open>*log.Logger\<close> as \<^verbatim>\<open>log.New(out, prefix, flag)\<close> makes it. \<^verbatim>\<open>Output\<close> writes one
  record with one call of \<^verbatim>\<open>Write\<close>: the prefix and the header (the prefix after the
  header when \<^verbatim>\<open>Lmsgprefix\<close>, bit 6 of the flags, is set), the text, and a newline when
  the text does not end in one.
\<close>

record stdLogger =
  lg_out :: "fileptr option"
  lg_prefix :: string
  lg_flag :: int

definition log_New :: "fileptr option \<Rightarrow> string \<Rightarrow> int \<Rightarrow> stdLogger" where
  "log_New out p f = \<lparr>lg_out = out, lg_prefix = p, lg_flag = f\<rparr>"

definition newline :: char where
  "newline = CHR 0x0A"

definition logLine :: "string \<Rightarrow> string \<Rightarrow> int \<Rightarrow> string \<Rightarrow> string" where
  "logLine h p f s =
     (if bit f 6 then h @ p else p @ h) @ s @
     (if s = [] \<or> last s \<noteq> newline then [newline] else [])"

definition Output :: "world \<Rightarrow> stdLogger \<Rightarrow> string \<Rightarrow> oserr + world" where
  "Output w lg s = file_Write w (lg_out lg) (logLine (hdr w (lg_flag lg)) (lg_prefix lg) (lg_flag lg) s)"

section \<open>The logger\<close>

text \<open>
  \<^verbatim>\<open>LoghLevel\<close> and the counters are Go \<^verbatim>\<open>int\<close>s. They are modelled as unbounded integers:
  the only arithmetic on them is \<^verbatim>\<open>writesSinceCheckRotate++\<close> and \<^verbatim>\<open>rotation++\<close>, on values
  that the comparisons right after keep below \<^verbatim>\<open>checkLogSize\<close> and \<^verbatim>\<open>maxRotations\<close>.
  Every \<^verbatim>\<open>fmt.Errorf\<close> is a constructor of \<open>error\<close>. A run-time panic is a value of
  \<open>panic\<close>.
\<close>

datatype error =
    LevelOutsideRange int int
  | CreatingLogDir oserr
  | OsError oserr
  | ClosingLogFile error
  | OpeningLogFile "error option" oserr

datatype panic = NilDereference | IndexOutOfRange

record Logger =
  checkLogSize :: int
  flags :: int
  level :: int
  levels :: "string list"
  levelMaxWidth :: int
  loggers :: "stdLogger option list"
  file' :: "fileptr option"
  filePath :: string
  maxLogSize :: int
  rotation :: int
  writesSinceCheckRotate :: int

definition maxRotations :: int where
  "maxRotations = 2"

definition DefaultLevels :: "string list" where
  "DefaultLevels = [''debug'', ''info'', ''warning'', ''audit'', ''error'']"

definition defaultOutput :: fileptr where
  "defaultOutput = Stdout"

text \<open>The path of a rotation slot: \<^verbatim>\<open>l.filePath + "." + strconv.Itoa(i)\<close>.\<close>

definition slotPath :: "Logger \<Rightarrow> int \<Rightarrow> path" where
  "slotPath l i = filePath l @ ''.'' @ Itoa i"

text \<open>\<^verbatim>\<open>Shutdown\<close>: every per-level logger is set to nil, the file is closed if there is one.\<close>

definition Shutdown :: "world \<Rightarrow> Logger \<Rightarrow> error option \<times> world \<times> Logger" where
  "Shutdown w l =
     (let l1 = l\<lparr>loggers := map (\<lambda>_. None) (loggers l)\<rparr> in
      case file' l1 of
        None \<Rightarrow> (None, w, l1)
      | Some f \<Rightarrow>
          (case file_Close w f of
             Inl e \<Rightarrow> (Some (ClosingLogFile (OsError e)), w, l1)
           | Inr w' \<Rightarrow> (None, w', l1)))"

definition initializeLoggers :: "Logger \<Rightarrow> Logger" where
  "initializeLoggers l =
     l\<lparr>loggers := map (\<lambda>v. Some (log_New (file' l) (v @ '': '') (flags l))) (levels l)\<rparr>"

text \<open>
  \<^verbatim>\<open>initializeRotation\<close>: the loop over \<^verbatim>\<open>i\<close>, then the code after it. Any error of
  \<^verbatim>\<open>os.Stat\<close> takes the slot.
\<close>

function initializeRotation_from :: "world \<Rightarrow> Logger \<Rightarrow> int \<Rightarrow> error option \<times> world \<times> Logger" where
  "initializeRotation_from w l i =
     (if i < maxRotations then
        (case os_Stat w (filePath l @ ''.'' @ Itoa i) of
           Inl e \<Rightarrow> (None, w, l\<lparr>rotation := i\<rparr>)
         | Inr sz \<Rightarrow>
             if sz < maxLogSize l then (None, w, l\<lparr>rotation := i\<rparr>)
             else initializeRotation_from w l (i + 1))
      else
        (case os_Remove w (filePath l @ ''.0'') of
           Inl e \<Rightarrow> (Some (OsError e), w, l\<lparr>rotation := 0\<rparr>)
         | Inr w' \<Rightarrow> (None, w', l\<lparr>rotation := 0\<rparr>)))"
  by pat_completeness auto
termination
  by (relation "measure (\<lambda>(w, l, i). nat (maxRotations - i))") auto

declare initializeRotation_from.simps [simp del]

definition initializeRotation :: "world \<Rightarrow> Logger \<Rightarrow> error option \<times> world \<times> Logger" where
  "initializeRotation w l = initializeRotation_from w l 0"

text \<open>
  \<^verbatim>\<open>openFileAndInitialize\<close>: the counter is reset; without a file path the file is
  \<^verbatim>\<open>defaultOutput\<close>; otherwise a file already held is shut down, the slot's file is opened,
  and \<^verbatim>\<open>defaultOutput\<close> stands in when the open fails. The per-level loggers are made in
  every case, and the errors collected are returned.
\<close>

definition openFileAndInitialize :: "world \<Rightarrow> Logger \<Rightarrow> error option \<times> world \<times> Logger" where
  "openFileAndInitialize w l =
     (let l1 = l\<lparr>writesSinceCheckRotate := 0\<rparr> in
      if filePath l1 = [] then (None, w, initializeLoggers (l1\<lparr>file' := Some defaultOutput\<rparr>))
      else
        (let (errors1, w1, l2) =
               (if file' l1 \<noteq> None then
                  (case Shutdown w l1 of
                     (Some e, w', l') \<Rightarrow> (Some (ClosingLogFile e), w', l')
                   | (None, w', l') \<Rightarrow> (None, w', l'))
                else (None, w, l1))
         in case os_OpenFile w1 (slotPath l2 (rotation l2)) of
              Inl e \<Rightarrow>
                (Some (OpeningLogFile errors1 e), w1,
                 initializeLoggers (l2\<lparr>file' := Some defaultOutput\<rparr>))
            | Inr (w2, f) \<Rightarrow> (errors1, w2, initializeLoggers (l2\<lparr>file' := Some f\<rparr>))))"

text \<open>\<^verbatim>\<open>checkSizeAndRotate\<close>.\<close>

definition checkSizeAndRotate :: "world \<Rightarrow> Logger \<Rightarrow> error option \<times> world \<times> Logger" where
  "checkSizeAndRotate w l =
     (if filePath l = [] then (None, w, l)
      else
        (let l1 = l\<lparr>writesSinceCheckRotate := 0\<rparr> in
         case os_Stat w (slotPath l1 (rotation l1)) of
           Inl e \<Rightarrow> (Some (OsError e), w, l1)
         | Inr sz \<Rightarrow>
             if sz > maxLogSize l1 then
               (let l2 = l1\<lparr>rotation := rotation l1 + 1\<rparr>;
                    l3 = (if rotation l2 \<ge> maxRotations then l2\<lparr>rotation := 0\<rparr> else l2)
                in case os_Remove w (slotPath l3 (rotation l3)) of
                     Inl e \<Rightarrow>
                       if \<not> os_IsNotExist e then (Some (OsError e), w, l3)
                       else openFileAndInitialize w l3
                   | Inr w' \<Rightarrow> openFileAndInitialize w' l3)
             else (None, w, l1)))"

text \<open>
  \<^verbatim>\<open>printCommon\<close>. The receiver may be nil. The text is the value of
  \<^verbatim>\<open>fmt.Sprintf(format, v...)\<close>. \<^verbatim>\<open>l.loggers[level]\<close> panics on an index outside the slice,
  and \<^verbatim>\<open>Output\<close> on a nil \<^verbatim>\<open>*log.Logger\<close> panics; the error \<^verbatim>\<open>Output\<close> returns and the
  error \<^verbatim>\<open>checkSizeAndRotate\<close> returns are dropped.
\<close>

definition outOfRangeText :: "int \<Rightarrow> int \<Rightarrow> string" where
  "outOfRangeText lv n =
     ''input level was outside range, level:'' @ Itoa lv @ '', len(levels)-1:'' @ Itoa n"

definition printCommon ::
  "world \<Rightarrow> Logger option \<Rightarrow> int \<Rightarrow> string \<Rightarrow> panic + (world \<times> Logger option)" where
  "printCommon w lo lv s =
     (case lo of
        None \<Rightarrow> Inr (w, None)
      | Some l \<Rightarrow>
          if lv \<ge> int (length (levels l)) then
            Inr (fmt_Printf w (outOfRangeText lv (int (length (levels l)) - 1)), Some l)
          else
            (case (if lv \<ge> level l then
                     (if lv < 0 \<or> lv \<ge> int (length (loggers l)) then Inl IndexOutOfRange
                      else case loggers l ! nat lv of
                             None \<Rightarrow> Inl NilDereference
                           | Some lg \<Rightarrow>
                               (case Output w lg s of Inl e \<Rightarrow> Inr w | Inr w' \<Rightarrow> Inr w'))
                   else Inr w) of
               Inl p \<Rightarrow> Inl p
             | Inr w1 \<Rightarrow>
                 if filePath l = [] then Inr (w1, Some l)
                 else
                   (let l1 = l\<lparr>writesSinceCheckRotate := writesSinceCheckRotate l + 1\<rparr> in
                    if writesSinceCheckRotate l1 \<ge> checkLogSize l1 then
                      (case checkSizeAndRotate w1 l1 of (e, w2, l2) \<Rightarrow> Inr (w2, Some l2))
                    else Inr (w1, Some l1))))"

definition Printf ::
  "world \<Rightarrow> Logger option \<Rightarrow> int \<Rightarrow> string \<Rightarrow> panic + (world \<times> Logger option)" where
  "Printf w lo lv s = printCommon w lo lv s"

definition Println ::
  "world \<Rightarrow> Logger option \<Rightarrow> int \<Rightarrow> string \<Rightarrow> panic + (world \<times> Logger option)" where
  "Println w lo lv s = printCommon w lo lv s"

text \<open>
  \<^verbatim>\<open>New\<close>, on the world and the package variable \<^verbatim>\<open>Map\<close>. \<^verbatim>\<open>os.MkdirAll\<close> of the
  directory of the file path is the environment's \<open>mkdir_denied\<close>.
\<close>

definition New ::
  "world \<times> (string \<rightharpoonup> Logger) \<Rightarrow> string \<Rightarrow> string \<Rightarrow> string list \<Rightarrow> int \<Rightarrow> int \<Rightarrow> int \<Rightarrow> int \<Rightarrow>
     error option \<times> world \<times> (string \<rightharpoonup> Logger)" where
  "New wm name fp lvls lvl flgs chk maxsz =
     (let w0 = fst wm; m0 = snd wm;
          w1 = (case m0 name of None \<Rightarrow> w0 | Some old \<Rightarrow> fst (snd (Shutdown w0 old)));
          m1 = m0(name := None);
          lg = \<lparr>checkLogSize = chk, flags = flgs, level = lvl, levels = lvls,
                levelMaxWidth = 0, loggers = [], file' = None, filePath = fp,
                maxLogSize = maxsz, rotation = 0, writesSinceCheckRotate = 0\<rparr>
      in if lvl < 0 \<or> lvl \<ge> int (length lvls) then
           (Some (LevelOutsideRange lvl (int (length lvls) - 1)), w1, m1)
         else if mkdir_denied w1 fp then (Some (CreatingLogDir EACCES), w1, m1)
         else
           (case initializeRotation w1 lg of
              (Some e, w2, lg2) \<Rightarrow> (Some e, w2, m1)
            | (None, w2, lg2) \<Rightarrow>
                (case openFileAndInitialize w2 lg2 of
                   (Some e, w3, lg3) \<Rightarrow> (Some e, w3, m1)
                 | (None, w3, lg3) \<Rightarrow>
                     (None, w3,
                      m1(name \<mapsto> lg3\<lparr>levelMaxWidth :=
                           fold (\<lambda>v mw. if int (length v) > mw then int (length v) else mw)
                             (levels lg3) (levelMaxWidth lg3)\<rparr>)))))"

section \<open>Notions used in the statements\<close>

text \<open>The configuration of a logger: the fields that only \<^verbatim>\<open>New\<close> sets.\<close>

definition same_config :: "Logger \<Rightarrow> Logger \<Rightarrow> bool" where
  "same_config l l' =
     (checkLogSize l' = checkLogSize l \<and> flags l' = flags l \<and> level l' = level l \<and>
      levels l' = levels l \<and> filePath l' = filePath l \<and> maxLogSize l' = maxLogSize l)"

text \<open>
  A logger whose per-level loggers are the ones \<^verbatim>\<open>initializeLoggers\<close> makes for its file,
  its labels and its flags: the state \<^verbatim>\<open>openFileAndInitialize\<close> leaves, until \<^verbatim>\<open>Shutdown\<close>.
\<close>

definition ready :: "Logger \<Rightarrow> bool" where
  "ready l =
     (loggers l = map (\<lambda>v. Some (log_New (file' l) (v @ '': '') (flags l))) (levels l))"

text \<open>The world with the bytes added at the end of the stream or file behind a handle.\<close>

fun appended :: "world \<Rightarrow> fileptr \<Rightarrow> string \<Rightarrow> world" where
  "appended w Stdout bs = w\<lparr>stdout_bytes := stdout_bytes w @ bs\<rparr>"
| "appended w (Fd n) bs =
     w\<lparr>inodes := (inodes w)[fst (handles w ! n) := inodes w ! fst (handles w ! n) @ bs]\<rparr>"

text \<open>
  No byte is written between two worlds: standard output and every file of the first
  world have the same bytes in the second, and the files created since are empty.
\<close>

definition no_bytes_written :: "world \<Rightarrow> world \<Rightarrow> bool" where
  "no_bytes_written w w' =
     (stdout_bytes w' = stdout_bytes w \<and>
      length (inodes w) \<le> length (inodes w') \<and>
      take (length (inodes w)) (inodes w') = inodes w \<and>
      list_all (\<lambda>c. c = []) (drop (length (inodes w)) (inodes w')))"

text \<open>
  The handles of the first world are handles of the second, on the same files (open or
  closed).
\<close>

definition handles_kept :: "world \<Rightarrow> world \<Rightarrow> bool" where
  "handles_kept w w' =
     (length (handles w) \<le> length (handles w') \<and>
      map fst (take (length (handles w)) (handles w')) = map fst (handles w))"

text \<open>
  A rotation slot is free when its file does not exist or is strictly smaller than the
  maximum size.
\<close>

definition slot_free :: "world \<Rightarrow> string \<Rightarrow> int \<Rightarrow> int \<Rightarrow> bool" where
  "slot_free w fp maxsz i =
     (case entries w (fp @ ''.'' @ Itoa i) of
        None \<Rightarrow> True
      | Some j \<Rightarrow> int (length (inodes w ! j)) < maxsz)"

text \<open>
  Nothing is written between two worlds, and the handles of the first are handles of the
  second.
\<close>

definition quiet :: "world \<Rightarrow> world \<Rightarrow> bool" where
  "quiet w w' = (no_bytes_written w w' \<and> handles_kept w w')"

text \<open>
  The end of \<^verbatim>\<open>printCommon\<close> (lines 263 to 269) on its own: the counter and the size
  check.
\<close>

definition countAndCheck :: "world \<Rightarrow> Logger \<Rightarrow> world \<times> Logger" where
  "countAndCheck w l =
     (if filePath l = [] then (w, l)
      else
        (let l1 = l\<lparr>writesSinceCheckRotate := writesSinceCheckRotate l + 1\<rparr> in
         if writesSinceCheckRotate l1 \<ge> checkLogSize l1 then
           (case checkSizeAndRotate w l1 of (e, w2, l2) \<Rightarrow> (w2, l2))
         else (w, l1)))"

subsection \<open>Example worlds and loggers\<close>

text \<open>An empty file system with standard output open, and the same with every open denied.\<close>

definition emptyWorld :: world where
  "emptyWorld =
     \<lparr>entries = Map.empty, inodes = [], handles = [], stdout_bytes = [],
      stdout_open = True, stat_denied = (\<lambda>p. False), remove_denied = (\<lambda>p. False),
      open_denied = (\<lambda>p. False), mkdir_denied = (\<lambda>p. False), hdr = (\<lambda>f. [])\<rparr>"

definition deniedWorld :: world where
  "deniedWorld = emptyWorld\<lparr>open_denied := (\<lambda>p. True)\<rparr>"

text \<open>
  The logger that \<^verbatim>\<open>New("app", "", DefaultLevels, Debug, 0, 10, 1000)\<close> registers in the
  empty world.
\<close>

definition stdoutLogger :: Logger where
  "stdoutLogger =
     \<lparr>checkLogSize = 10, flags = 0, level = 0, levels = DefaultLevels, levelMaxWidth = 7,
      loggers = map (\<lambda>v. Some (log_New (Some Stdout) (v @ '': '') 0)) DefaultLevels,
      file' = Some Stdout, filePath = [], maxLogSize = 1000, rotation = 0,
      writesSinceCheckRotate = 0\<rparr>"

text \<open>
  The world and the logger that \<^verbatim>\<open>New("app", "log", DefaultLevels, Info, 0, 2, 10)\<close> leaves
  from the empty world (lemma \<open>New_fileLogger\<close>), and that world once \<^verbatim>\<open>log.0\<close> holds
  twelve bytes.
\<close>

definition logWorld :: world where
  "logWorld = emptyWorld\<lparr>entries := [''log.0'' \<mapsto> 0], inodes := [[]], handles := [(0, True)]\<rparr>"

definition fileLogger :: Logger where
  "fileLogger =
     \<lparr>checkLogSize = 2, flags = 0, level = 1, levels = DefaultLevels, levelMaxWidth = 7,
      loggers = map (\<lambda>v. Some (log_New (Some (Fd 0)) (v @ '': '') 0)) DefaultLevels,
      file' = Some (Fd 0), filePath = ''log'', maxLogSize = 10, rotation = 0,
      writesSinceCheckRotate = 0\<rparr>"

definition fullWorld :: world where
  "fullWorld = logWorld\<lparr>inodes := [''info: hello'' @ [newline]]\<rparr>"

text \<open>The file logger one call before its size check is due.\<close>

definition dueLogger :: Logger where
  "dueLogger = fileLogger\<lparr>writesSinceCheckRotate := 1\<rparr>"

text \<open>A world where both rotation files exist and hold twelve bytes each.\<close>

definition bothFullWorld :: world where
  "bothFullWorld =
     emptyWorld\<lparr>entries := [''log.0'' \<mapsto> 0, ''log.1'' \<mapsto> 1],
                inodes := [''info: hello'' @ [newline], ''info: world'' @ [newline]]\<rparr>"

section \<open>Properties\<close>

subsection \<open>Decimal numerals and slot paths\<close>

lemma natstr_small: "n < 10 \<Longrightarrow> natstr n = [digit n]"
  by (simp add: natstr.simps)

lemma Itoa_0: "Itoa 0 = ''0''"
  by (simp add: Itoa_def natstr_small digit_def)

lemma Itoa_1: "Itoa 1 = ''1''"
  by (simp add: Itoa_def natstr_small digit_def)

subsection \<open>The configuration is never changed after construction\<close>

lemma initializeRotation_from_config:
  "initializeRotation_from w l i = (e, w', l') \<Longrightarrow> same_config l l'"
proof (induction w l i rule: initializeRotation_from.induct)
  case (1 w l i)
  then show ?case
    by (subst (asm) (2) initializeRotation_from.simps)
       (auto simp: same_config_def split: if_splits sum.splits)
qed

lemma Shutdown_config: "Shutdown w l = (e, w', l') \<Longrightarrow> same_config l l'"
  by (auto simp: Shutdown_def Let_def same_config_def split: option.splits sum.splits)

lemma openFileAndInitialize_config:
  "openFileAndInitialize w l = (e, w', l') \<Longrightarrow> same_config l l'"
  by (auto simp: openFileAndInitialize_def Let_def initializeLoggers_def same_config_def
      split: if_splits option.splits sum.splits prod.splits dest!: Shutdown_config)

subsection \<open>Construction in the empty world\<close>

lemma initializeRotation_fresh:
  "os_Stat w (filePath l @ ''.0'') = Inl e \<Longrightarrow>
   initializeRotation w l = (None, w, l\<lparr>rotation := 0\<rparr>)"
  by (simp add: initializeRotation_def initializeRotation_from.simps [of w l 0]
      maxRotations_def Itoa_0)

lemma New_stdoutLogger:
  "New (emptyWorld, Map.empty) ''app'' [] DefaultLevels 0 0 10 1000 =
     (None, emptyWorld, [''app'' \<mapsto> stdoutLogger])"
proof -
  have "os_Stat emptyWorld ''.0'' = Inl ENOENT"
    by (simp add: os_Stat_def emptyWorld_def)
  then show ?thesis
    by (simp add: New_def initializeRotation_fresh openFileAndInitialize_def
        initializeLoggers_def defaultOutput_def stdoutLogger_def DefaultLevels_def Let_def
        emptyWorld_def)
qed

text \<open>
  The same call again, now at level \<^verbatim>\<open>Warning\<close>, as the README changes the level of a
  running logger: \<^verbatim>\<open>New\<close> shuts the registered logger down, which closes \<^verbatim>\<open>os.Stdout\<close>, and
  registers, without an error, a logger on the closed stream.
\<close>

lemma New_again_closes_stdout:
  "New (emptyWorld, [''app'' \<mapsto> stdoutLogger]) ''app'' [] DefaultLevels 2 0 10 1000 =
     (None, emptyWorld\<lparr>stdout_open := False\<rparr>,
      [''app'' \<mapsto> stdoutLogger\<lparr>level := 2\<rparr>])"
proof -
  have "os_Stat (emptyWorld\<lparr>stdout_open := False\<rparr>) ''.0'' = Inl ENOENT"
    by (simp add: os_Stat_def emptyWorld_def)
  then show ?thesis
    by (simp add: New_def Shutdown_def initializeRotation_fresh openFileAndInitialize_def
        initializeLoggers_def defaultOutput_def stdoutLogger_def DefaultLevels_def Let_def
        emptyWorld_def)
qed

subsection \<open>Emit on a nil logger\<close>

text \<open>
  C9. For every severity and message, \<^verbatim>\<open>Printf\<close> and \<^verbatim>\<open>Println\<close> on a nil logger return
  without a panic, and the world is the one before the call: nothing is written.
\<close>

theorem printCommon_nil_receiver:
  "printCommon w None lv s = Inr (w, None) \<and>
   Printf w None lv s = Inr (w, None) \<and>
   Println w None lv s = Inr (w, None)"
  by (simp add: printCommon_def Printf_def Println_def)

subsection \<open>Severity at or above the number of labels\<close>

text \<open>
  C7, as the code has it. An emit call whose severity index is at or above the number of
  level labels returns nothing to the caller (\<^verbatim>\<open>Printf\<close> and \<^verbatim>\<open>Println\<close> have no result). It
  does not panic and leaves the logger as it was. When standard output is open it prints
  the text \<^verbatim>\<open>input level was outside range, ...\<close>, with no newline, on standard output,
  which for a logger without a file path is the logger's own stream; when standard output
  has been closed nothing is printed. Apart from that text the world is unchanged: no
  file, no handle and no per-level logger is touched.
\<close>

theorem printCommon_level_outside_range:
  assumes "int (length (levels l)) \<le> lv"
  shows "printCommon w (Some l) lv s =
           Inr (if stdout_open w
                then w\<lparr>stdout_bytes :=
                        stdout_bytes w @ outOfRangeText lv (int (length (levels l)) - 1)\<rparr>
                else w,
                Some l)"
  using assms by (simp add: printCommon_def fmt_Printf_def)

theorem printCommon_level_outside_range_witness:
  "int (length (levels stdoutLogger)) \<le> 7 \<and>
   printCommon emptyWorld (Some stdoutLogger) 7 ''late'' =
     Inr (emptyWorld\<lparr>stdout_bytes :=
            ''input level was outside range, level:7, len(levels)-1:4''\<rparr>,
          Some stdoutLogger)"
proof -
  have h: "int (length (levels stdoutLogger)) \<le> 7"
    by (simp add: stdoutLogger_def DefaultLevels_def)
  have t: "outOfRangeText 7 4 = ''input level was outside range, level:7, len(levels)-1:4''"
    by (simp add: outOfRangeText_def Itoa_def natstr_small digit_def)
  have o: "stdout_open emptyWorld" "stdout_bytes emptyWorld = []"
    by (simp_all add: emptyWorld_def)
  have n: "int (length (levels stdoutLogger)) - 1 = 4"
    by (simp add: stdoutLogger_def DefaultLevels_def)
  show ?thesis
    using h printCommon_level_outside_range [OF h, of emptyWorld "''late''"]
    by (simp add: t o n)
qed

text \<open>
  Two calls with level 7 on the logger for an empty file path. On the logger that the
  second \<^verbatim>\<open>New\<close> registers, standard output is closed: the call changes nothing at all,
  so nothing is reported. On the first logger the text is added to standard output, the
  stream the logger's own lines go to.
\<close>

theorem level_outside_range_counterexample:
  "New (emptyWorld, [''app'' \<mapsto> stdoutLogger]) ''app'' [] DefaultLevels 2 0 10 1000 =
     (None, emptyWorld\<lparr>stdout_open := False\<rparr>,
      [''app'' \<mapsto> stdoutLogger\<lparr>level := 2\<rparr>]) \<and>
   printCommon (emptyWorld\<lparr>stdout_open := False\<rparr>) (Some (stdoutLogger\<lparr>level := 2\<rparr>)) 7
       ''late'' =
     Inr (emptyWorld\<lparr>stdout_open := False\<rparr>, Some (stdoutLogger\<lparr>level := 2\<rparr>)) \<and>
   file' stdoutLogger = Some Stdout \<and> bytes_at emptyWorld Stdout = [] \<and>
   printCommon emptyWorld (Some stdoutLogger) 7 ''late'' =
     Inr (emptyWorld\<lparr>stdout_bytes :=
            ''input level was outside range, level:7, len(levels)-1:4''\<rparr>,
          Some stdoutLogger)"
proof -
  have t: "outOfRangeText 7 4 = ''input level was outside range, level:7, len(levels)-1:4''"
    by (simp add: outOfRangeText_def Itoa_def natstr_small digit_def)
  have a: "printCommon (emptyWorld\<lparr>stdout_open := False\<rparr>)
             (Some (stdoutLogger\<lparr>level := 2\<rparr>)) 7 ''late'' =
     Inr (emptyWorld\<lparr>stdout_open := False\<rparr>, Some (stdoutLogger\<lparr>level := 2\<rparr>))"
    by (simp add: printCommon_def stdoutLogger_def DefaultLevels_def fmt_Printf_def
        emptyWorld_def)
  have b: "printCommon emptyWorld (Some stdoutLogger) 7 ''late'' =
     Inr (emptyWorld\<lparr>stdout_bytes :=
            ''input level was outside range, level:7, len(levels)-1:4''\<rparr>,
          Some stdoutLogger)"
    by (simp add: printCommon_def stdoutLogger_def DefaultLevels_def fmt_Printf_def
        emptyWorld_def t)
  have c: "file' stdoutLogger = Some Stdout" "bytes_at emptyWorld Stdout = []"
    by (simp_all add: stdoutLogger_def emptyWorld_def)
  from New_again_closes_stdout a b c show ?thesis
    by simp
qed

subsection \<open>Validation of the initial threshold\<close>

text \<open>
  C8. \<^verbatim>\<open>New\<close> with an initial level that is negative or at least the number of level
  labels returns the range error and leaves no logger registered under the name; when
  \<^verbatim>\<open>New\<close> returns no error, the logger registered under the name has its threshold within
  the bounds of its level labels.
\<close>

theorem New_validates_level:
  "(lvl < 0 \<or> int (length lvls) \<le> lvl \<longrightarrow>
      (\<exists>w'. New (w, m) name fp lvls lvl flgs chk maxsz =
              (Some (LevelOutsideRange lvl (int (length lvls) - 1)), w', m(name := None))))
   \<and> (\<forall>w' m'. New (w, m) name fp lvls lvl flgs chk maxsz = (None, w', m') \<longrightarrow>
        (\<exists>l. m' name = Some l \<and> 0 \<le> level l \<and> level l < int (length (levels l))))"
proof (intro conjI impI allI)
  assume "lvl < 0 \<or> int (length lvls) \<le> lvl"
  then show "\<exists>w'. New (w, m) name fp lvls lvl flgs chk maxsz =
              (Some (LevelOutsideRange lvl (int (length lvls) - 1)), w', m(name := None))"
    by (auto simp: New_def Let_def)
next
  fix w' m'
  assume ok: "New (w, m) name fp lvls lvl flgs chk maxsz = (None, w', m')"
  then show "\<exists>l. m' name = Some l \<and> 0 \<le> level l \<and> level l < int (length (levels l))"
    by (auto simp: New_def Let_def initializeRotation_def same_config_def
        split: if_splits prod.splits option.splits
        dest!: initializeRotation_from_config openFileAndInitialize_config)
qed

theorem New_validates_level_witness:
  "(\<exists>w'. New (emptyWorld, [''app'' \<mapsto> stdoutLogger]) ''app'' [] DefaultLevels 5 0 10 1000 =
           (Some (LevelOutsideRange 5 4), w', Map.empty)) \<and>
   New (emptyWorld, Map.empty) ''app'' [] DefaultLevels 0 0 10 1000 =
     (None, emptyWorld, [''app'' \<mapsto> stdoutLogger]) \<and>
   (\<exists>l. [''app'' \<mapsto> stdoutLogger] ''app'' = Some l \<and> 0 \<le> level l \<and>
        level l < int (length (levels l)))"
proof -
  have a: "(5::int) < 0 \<or> int (length DefaultLevels) \<le> 5"
    by (simp add: DefaultLevels_def)
  have n: "int (length DefaultLevels) - 1 = 4"
    by (simp add: DefaultLevels_def)
  have e: "[''app'' \<mapsto> stdoutLogger](''app'' := None) = Map.empty"
    by simp
  from a
    New_validates_level [of 5 DefaultLevels emptyWorld "[''app'' \<mapsto> stdoutLogger]"
      "''app''" "[]" 0 10 1000]
  have first: "\<exists>w'. New (emptyWorld, [''app'' \<mapsto> stdoutLogger]) ''app'' [] DefaultLevels 5 0 10 1000 =
           (Some (LevelOutsideRange 5 4), w', Map.empty)"
    unfolding n e by blast
  from New_stdoutLogger
    New_validates_level [of 0 DefaultLevels emptyWorld Map.empty "''app''" "[]" 0 10 1000]
  have second: "\<exists>l. [''app'' \<mapsto> stdoutLogger] ''app'' = Some l \<and> 0 \<le> level l \<and>
        level l < int (length (levels l))"
    by blast
  from first New_stdoutLogger second show ?thesis
    by blast
qed

subsection \<open>Shutdown called twice\<close>

text \<open>
  C5, as the code has it. \<^verbatim>\<open>Shutdown\<close> closes the file but keeps the pointer, so a second
  call closes the same handle again. The second call never panics and changes neither
  the world nor the logger; it returns no error exactly when the logger holds no file,
  and the error of closing a closed file otherwise.
\<close>

theorem Shutdown_second_call:
  assumes "Shutdown w l = (e1, w1, l1)"
  shows "Shutdown w1 l1 =
           (if file' l = None then None else Some (ClosingLogFile (OsError ErrClosed)),
            w1, l1)"
proof (cases "file' l")
  case None
  with assms show ?thesis
    by (auto simp: Shutdown_def Let_def)
next
  case (Some f)
  show ?thesis
  proof (cases f)
    case Stdout
    with Some assms show ?thesis
      by (auto simp: Shutdown_def Let_def split: if_splits)
  next
    case (Fd n)
    with Some assms show ?thesis
      by (auto simp: Shutdown_def Let_def split: if_splits)
  qed
qed

lemma Shutdown_stdoutLogger:
  "Shutdown emptyWorld stdoutLogger =
     (None, emptyWorld\<lparr>stdout_open := False\<rparr>,
      stdoutLogger\<lparr>loggers := [None, None, None, None, None]\<rparr>)"
  by (simp add: Shutdown_def stdoutLogger_def emptyWorld_def DefaultLevels_def)

theorem Shutdown_second_call_witness:
  "Shutdown emptyWorld stdoutLogger =
     (None, emptyWorld\<lparr>stdout_open := False\<rparr>,
      stdoutLogger\<lparr>loggers := [None, None, None, None, None]\<rparr>) \<and>
   Shutdown (emptyWorld\<lparr>stdout_open := False\<rparr>)
       (stdoutLogger\<lparr>loggers := [None, None, None, None, None]\<rparr>) =
     (Some (ClosingLogFile (OsError ErrClosed)), emptyWorld\<lparr>stdout_open := False\<rparr>,
      stdoutLogger\<lparr>loggers := [None, None, None, None, None]\<rparr>)"
proof -
  have f: "file' stdoutLogger \<noteq> None"
    by (simp add: stdoutLogger_def)
  from Shutdown_second_call [OF Shutdown_stdoutLogger] f Shutdown_stdoutLogger
  show ?thesis
    by simp
qed

text \<open>
  The file logger that \<^verbatim>\<open>New("app", "log", DefaultLevels, Info, 0, 2, 10)\<close> registers in
  the empty world (\<open>fileLogger\<close> in \<open>logWorld\<close>): the first \<^verbatim>\<open>Shutdown\<close> returns no error,
  the second one returns the error of closing \<^verbatim>\<open>log.0\<close> again.
\<close>

theorem Shutdown_twice_counterexample:
  "fst (Shutdown logWorld fileLogger) = None \<and>
   fst (Shutdown (fst (snd (Shutdown logWorld fileLogger)))
          (snd (snd (Shutdown logWorld fileLogger)))) =
     Some (ClosingLogFile (OsError ErrClosed))"
  by (simp add: Shutdown_def fileLogger_def logWorld_def emptyWorld_def DefaultLevels_def)

subsection \<open>Construction when the rotation file cannot be opened\<close>

text \<open>
  C6, at a failing input. In a world where no file can be opened, \<^verbatim>\<open>New\<close> returns the
  error of \<^verbatim>\<open>openFileAndInitialize\<close> before it reaches \<^verbatim>\<open>Map[name] = logger\<close>: the logger
  that was switched to the default output is dropped, and no logger is registered.
\<close>

theorem New_open_denied:
  "New (deniedWorld, Map.empty) ''app'' ''log'' DefaultLevels 0 0 10 1000 =
     (Some (OpeningLogFile None EACCES), deniedWorld, Map.empty)"
proof -
  have "os_Stat deniedWorld ''log.0'' = Inl ENOENT"
    by (simp add: os_Stat_def emptyWorld_def deniedWorld_def)
  then show ?thesis
    by (simp add: New_def initializeRotation_fresh openFileAndInitialize_def
        initializeLoggers_def defaultOutput_def DefaultLevels_def Let_def slotPath_def
        Itoa_0 os_OpenFile_def deniedWorld_def emptyWorld_def)
qed

subsection \<open>The rotation functions, case by case\<close>

lemma slotPath_writes [simp]: "slotPath (l\<lparr>writesSinceCheckRotate := x\<rparr>) = slotPath l"
  by (rule ext) (simp add: slotPath_def)

lemma slotPath_rotation [simp]: "slotPath (l\<lparr>rotation := x\<rparr>) = slotPath l"
  by (rule ext) (simp add: slotPath_def)

lemma slotPath_loggers [simp]: "slotPath (l\<lparr>loggers := x\<rparr>) = slotPath l"
  by (rule ext) (simp add: slotPath_def)

lemma Shutdown_logger:
  "snd (snd (Shutdown w l)) = l\<lparr>loggers := map (\<lambda>_. None) (loggers l)\<rparr>"
  by (simp add: Shutdown_def Let_def split: option.split sum.split)

lemma checkSizeAndRotate_unfold:
  assumes "filePath l \<noteq> []"
  shows "checkSizeAndRotate w l =
     (case os_Stat w (slotPath l (rotation l)) of
        Inl e \<Rightarrow> (Some (OsError e), w, l\<lparr>writesSinceCheckRotate := 0\<rparr>)
      | Inr sz \<Rightarrow>
          if maxLogSize l < sz then
            (case os_Remove w (slotPath l (if maxRotations \<le> rotation l + 1 then 0 else rotation l + 1)) of
               Inl e \<Rightarrow>
                 if e \<noteq> ENOENT
                 then (Some (OsError e), w,
                       l\<lparr>writesSinceCheckRotate := 0,
                         rotation := (if maxRotations \<le> rotation l + 1 then 0 else rotation l + 1)\<rparr>)
                 else openFileAndInitialize w
                       (l\<lparr>writesSinceCheckRotate := 0,
                          rotation := (if maxRotations \<le> rotation l + 1 then 0 else rotation l + 1)\<rparr>)
             | Inr w' \<Rightarrow>
                 openFileAndInitialize w'
                   (l\<lparr>writesSinceCheckRotate := 0,
                      rotation := (if maxRotations \<le> rotation l + 1 then 0 else rotation l + 1)\<rparr>))
          else (None, w, l\<lparr>writesSinceCheckRotate := 0\<rparr>))"
proof (cases "maxRotations \<le> rotation l + 1")
  case True
  with assms show ?thesis
    by (simp add: checkSizeAndRotate_def Let_def os_IsNotExist_def split: sum.split)
next
  case False
  with assms show ?thesis
    by (simp add: checkSizeAndRotate_def Let_def os_IsNotExist_def split: sum.split)
qed

lemma openFileAndInitialize_nofile:
  assumes "filePath l \<noteq> []" "file' l = None"
  shows "openFileAndInitialize w l =
     (case os_OpenFile w (slotPath l (rotation l)) of
        Inl e \<Rightarrow>
          (Some (OpeningLogFile None e), w,
           initializeLoggers (l\<lparr>writesSinceCheckRotate := 0, file' := Some defaultOutput\<rparr>))
      | Inr (w2, f) \<Rightarrow>
          (None, w2, initializeLoggers (l\<lparr>writesSinceCheckRotate := 0, file' := Some f\<rparr>)))"
  using assms by (simp add: openFileAndInitialize_def Let_def slotPath_def split: sum.split prod.split)

lemma openFileAndInitialize_file:
  assumes "filePath l \<noteq> []" "file' l = Some f0"
    and "Shutdown w (l\<lparr>writesSinceCheckRotate := 0\<rparr>) = (es, w1, l2)"
  shows "openFileAndInitialize w l =
     (case os_OpenFile w1 (slotPath l (rotation l)) of
        Inl e \<Rightarrow>
          (Some (OpeningLogFile (map_option ClosingLogFile es) e), w1,
           initializeLoggers (l2\<lparr>file' := Some defaultOutput\<rparr>))
      | Inr (w2, f) \<Rightarrow>
          (map_option ClosingLogFile es, w2, initializeLoggers (l2\<lparr>file' := Some f\<rparr>)))"
proof -
  from assms(3) Shutdown_logger [of w "l\<lparr>writesSinceCheckRotate := 0\<rparr>"]
  have l2: "l2 = l\<lparr>writesSinceCheckRotate := 0, loggers := map (\<lambda>_. None) (loggers l)\<rparr>"
    by simp
  show ?thesis
  proof (cases es)
    case None
    with assms l2 show ?thesis
      by (simp add: openFileAndInitialize_def Let_def slotPath_def split: sum.split prod.split)
  next
    case (Some a)
    with assms l2 show ?thesis
      by (simp add: openFileAndInitialize_def Let_def slotPath_def split: sum.split prod.split)
  qed
qed


lemma no_bytes_written_refl: "no_bytes_written w w"
  by (simp add: no_bytes_written_def)

lemma no_bytes_written_trans:
  assumes "no_bytes_written a b" "no_bytes_written b c"
  shows "no_bytes_written a c"
proof -
  from assms have la: "length (inodes a) \<le> length (inodes b)"
    and lb: "length (inodes b) \<le> length (inodes c)"
    and ta: "take (length (inodes a)) (inodes b) = inodes a"
    and tb: "take (length (inodes b)) (inodes c) = inodes b"
    and da: "list_all (\<lambda>c. c = []) (drop (length (inodes a)) (inodes b))"
    and db: "list_all (\<lambda>c. c = []) (drop (length (inodes b)) (inodes c))"
    and so: "stdout_bytes c = stdout_bytes a"
    by (simp_all add: no_bytes_written_def)
  have c: "inodes c = inodes b @ drop (length (inodes b)) (inodes c)"
    using tb by (metis append_take_drop_id)
  have b: "inodes b = inodes a @ drop (length (inodes a)) (inodes b)"
    using ta by (metis append_take_drop_id)
  have t: "take (length (inodes a)) (inodes c) = inodes a"
    by (subst c, subst b) simp
  have "drop (length (inodes a)) (inodes c) =
          drop (length (inodes a)) (inodes b) @ drop (length (inodes b)) (inodes c)"
    by (subst c) (simp add: la)
  with da db have "list_all (\<lambda>c. c = []) (drop (length (inodes a)) (inodes c))"
    by simp
  with t la lb so show ?thesis
    by (simp add: no_bytes_written_def)
qed

lemma handles_kept_refl: "handles_kept w w"
  by (simp add: handles_kept_def)

lemma handles_kept_trans:
  assumes "handles_kept a b" "handles_kept b c"
  shows "handles_kept a c"
proof -
  from assms have la: "length (handles a) \<le> length (handles b)"
    and lb: "length (handles b) \<le> length (handles c)"
    and ta: "map fst (take (length (handles a)) (handles b)) = map fst (handles a)"
    and tb: "map fst (take (length (handles b)) (handles c)) = map fst (handles b)"
    by (simp_all add: handles_kept_def)
  have "map fst (take (length (handles a)) (handles c)) =
          take (length (handles a)) (map fst (take (length (handles b)) (handles c)))"
    using la by (simp add: take_map min_def)
  also have "\<dots> = map fst (take (length (handles a)) (handles b))"
    by (simp add: tb take_map)
  finally show ?thesis
    using ta la lb by (simp add: handles_kept_def)
qed


lemma map_update_same: "n < length xs \<Longrightarrow> (map f xs)[n := f (xs ! n)] = map f xs"
  by (simp add: list_eq_iff_nth_eq nth_list_update)

lemma quiet_refl: "quiet w w"
  by (simp add: quiet_def no_bytes_written_refl handles_kept_refl)

lemma quiet_trans: "quiet a b \<Longrightarrow> quiet b c \<Longrightarrow> quiet a c"
  unfolding quiet_def by (blast intro: no_bytes_written_trans handles_kept_trans)

lemma os_Remove_quiet: "os_Remove w p = Inr w' \<Longrightarrow> quiet w w'"
  by (auto simp: os_Remove_def quiet_def no_bytes_written_def handles_kept_def
      split: if_splits option.splits)

lemma os_OpenFile_quiet: "os_OpenFile w p = Inr (w', f) \<Longrightarrow> quiet w w'"
  by (auto simp: os_OpenFile_def quiet_def no_bytes_written_def handles_kept_def
      split: if_splits option.splits)

lemma file_Close_quiet: "file_Close w f = Inr w' \<Longrightarrow> quiet w w'"
  by (cases f)
     (auto simp: quiet_def no_bytes_written_def handles_kept_def map_update map_update_same
       split: if_splits)

lemma Shutdown_quiet: "Shutdown w l = (e, w', l') \<Longrightarrow> quiet w w'"
  by (auto simp: Shutdown_def Let_def quiet_refl
      split: option.splits sum.splits dest: file_Close_quiet)

lemma openFileAndInitialize_quiet:
  assumes "openFileAndInitialize w l = (e, w', l')"
  shows "quiet w w'"
proof (cases "filePath l = []")
  case True
  with assms show ?thesis
    by (simp add: openFileAndInitialize_def quiet_refl)
next
  case False
  show ?thesis
  proof (cases "file' l")
    case None
    with assms False show ?thesis
      by (auto simp: openFileAndInitialize_nofile quiet_refl
          split: sum.splits dest: os_OpenFile_quiet)
  next
    case (Some f0)
    obtain es w1 l2 where s: "Shutdown w (l\<lparr>writesSinceCheckRotate := 0\<rparr>) = (es, w1, l2)"
      by (metis prod_cases3)
    then have q1: "quiet w w1"
      by (rule Shutdown_quiet)
    from assms have "quiet w1 w'"
      unfolding openFileAndInitialize_file [OF False Some s]
      by (auto simp: quiet_refl split: sum.splits dest: os_OpenFile_quiet)
    with q1 show ?thesis
      by (rule quiet_trans)
  qed
qed

lemma checkSizeAndRotate_quiet:
  assumes "checkSizeAndRotate w l = (e, w', l')"
  shows "quiet w w'"
proof (cases "filePath l = []")
  case True
  with assms show ?thesis
    by (simp add: checkSizeAndRotate_def quiet_refl)
next
  case False
  from assms show ?thesis
    unfolding checkSizeAndRotate_unfold [OF False]
    by (auto simp: quiet_refl split: sum.splits if_splits
        dest!: os_Remove_quiet openFileAndInitialize_quiet intro: quiet_trans)
qed

lemma openFileAndInitialize_counter:
  assumes "openFileAndInitialize w l = (e, w', l')"
  shows "writesSinceCheckRotate l' = 0"
proof (cases "filePath l = []")
  case True
  with assms show ?thesis
    by (auto simp: openFileAndInitialize_def initializeLoggers_def)
next
  case False
  show ?thesis
  proof (cases "file' l")
    case None
    with assms False show ?thesis
      by (auto simp: openFileAndInitialize_nofile initializeLoggers_def split: sum.splits)
  next
    case (Some f0)
    obtain es w1 l2 where s: "Shutdown w (l\<lparr>writesSinceCheckRotate := 0\<rparr>) = (es, w1, l2)"
      by (metis prod_cases3)
    with Shutdown_logger [of w "l\<lparr>writesSinceCheckRotate := 0\<rparr>"]
    have "writesSinceCheckRotate l2 = 0"
      by simp
    with assms show ?thesis
      unfolding openFileAndInitialize_file [OF False Some s]
      by (auto simp: initializeLoggers_def split: sum.splits)
  qed
qed

lemma checkSizeAndRotate_counter:
  assumes "filePath l \<noteq> []" "checkSizeAndRotate w l = (e, w', l')"
  shows "writesSinceCheckRotate l' = 0"
  using assms(2) unfolding checkSizeAndRotate_unfold [OF assms(1)]
  by (auto split: sum.splits if_splits dest: openFileAndInitialize_counter)

lemma checkSizeAndRotate_config:
  assumes "checkSizeAndRotate w l = (e, w', l')"
  shows "same_config l l'"
proof (cases "filePath l = []")
  case True
  with assms show ?thesis
    by (simp add: checkSizeAndRotate_def same_config_def)
next
  case False
  from assms show ?thesis
    unfolding checkSizeAndRotate_unfold [OF False]
    by (auto simp: same_config_def split: sum.splits if_splits
        dest!: openFileAndInitialize_config)
qed


subsection \<open>The two halves of \<^verbatim>\<open>printCommon\<close>\<close>

lemma Printf_Println: "Printf = printCommon" "Println = printCommon"
  by (rule ext, rule ext, rule ext, rule ext, simp add: Printf_def Println_def)+

lemma printCommon_filtered:
  assumes "lv < int (length (levels l))" "lv < level l"
  shows "printCommon w (Some l) lv s =
           (case countAndCheck w l of (w', l') \<Rightarrow> Inr (w', Some l'))"
  using assms
  by (simp add: printCommon_def countAndCheck_def Let_def split: prod.split)

lemma file_Write_open: "is_open w f \<Longrightarrow> file_Write w (Some f) bs = Inr (appended w f bs)"
  by (cases f) simp_all

lemma printCommon_passed:
  assumes "ready l" "0 \<le> lv" "lv < int (length (levels l))" "level l \<le> lv"
  shows "printCommon w (Some l) lv s =
           (case countAndCheck
                   (case file_Write w (file' l)
                           (logLine (hdr w (flags l)) (levels l ! nat lv @ '': '') (flags l) s) of
                      Inl e \<Rightarrow> w | Inr w1 \<Rightarrow> w1) l of
              (w', l') \<Rightarrow> Inr (w', Some l'))"
proof -
  from assms(1) have len: "length (loggers l) = length (levels l)"
    by (simp add: ready_def)
  from assms(1,2,3)
  have lg: "loggers l ! nat lv = Some (log_New (file' l) (levels l ! nat lv @ '': '') (flags l))"
    by (simp add: ready_def)
  show ?thesis
  proof (cases "file_Write w (file' l)
                  (logLine (hdr w (flags l)) (levels l ! nat lv @ '': '') (flags l) s)")
    case (Inl e)
    with assms(2,3,4) len lg show ?thesis
      by (simp add: printCommon_def countAndCheck_def Let_def Output_def log_New_def
          split: prod.split)
  next
    case (Inr w1)
    with assms(2,3,4) len lg show ?thesis
      by (simp add: printCommon_def countAndCheck_def Let_def Output_def log_New_def
          split: prod.split)
  qed
qed

lemma countAndCheck_quiet: "countAndCheck w l = (w', l') \<Longrightarrow> quiet w w'"
  by (auto simp: countAndCheck_def Let_def quiet_refl
      split: if_splits prod.splits dest: checkSizeAndRotate_quiet)

lemma countAndCheck_config: "countAndCheck w l = (w', l') \<Longrightarrow> same_config l l'"
  by (auto simp: countAndCheck_def Let_def same_config_def
      split: if_splits prod.splits dest!: checkSizeAndRotate_config)

lemma countAndCheck_counter:
  assumes "filePath l \<noteq> []" "countAndCheck w l = (w', l')"
  shows "writesSinceCheckRotate l' =
           (if checkLogSize l \<le> writesSinceCheckRotate l + 1 then 0
            else writesSinceCheckRotate l + 1)"
proof (cases "checkLogSize l \<le> writesSinceCheckRotate l + 1")
  case True
  let ?l1 = "l\<lparr>writesSinceCheckRotate := writesSinceCheckRotate l + 1\<rparr>"
  obtain e where "checkSizeAndRotate w ?l1 = (e, w', l')"
    using assms True by (auto simp: countAndCheck_def Let_def split: prod.splits)
  moreover from assms(1) have "filePath ?l1 \<noteq> []"
    by simp
  ultimately have "writesSinceCheckRotate l' = 0"
    by (rule checkSizeAndRotate_counter [rotated])
  with True show ?thesis
    by simp
next
  case False
  with assms show ?thesis
    by (auto simp: countAndCheck_def Let_def)
qed

lemma countAndCheck_no_path: "filePath l = [] \<Longrightarrow> countAndCheck w l = (w, l)"
  by (simp add: countAndCheck_def)

subsection \<open>The example file logger\<close>

lemma New_fileLogger:
  "New (emptyWorld, Map.empty) ''app'' ''log'' DefaultLevels 1 0 2 10 =
     (None, logWorld, [''app'' \<mapsto> fileLogger])"
proof -
  have "os_Stat emptyWorld ''log.0'' = Inl ENOENT"
    by (simp add: os_Stat_def emptyWorld_def)
  then show ?thesis
    by (simp add: New_def initializeRotation_fresh openFileAndInitialize_def
        initializeLoggers_def defaultOutput_def fileLogger_def DefaultLevels_def Let_def
        emptyWorld_def logWorld_def slotPath_def Itoa_0 os_OpenFile_def)
qed

lemma fileLogger_ready: "ready fileLogger"
  by (simp add: ready_def fileLogger_def)

lemma slotPath_fileLogger:
  "slotPath fileLogger 0 = ''log.0''" "slotPath fileLogger 1 = ''log.1''"
  by (simp_all add: slotPath_def fileLogger_def Itoa_0 Itoa_1)

subsection \<open>Negative severity\<close>

text \<open>
  C10. On a logger whose threshold is not negative (\<^verbatim>\<open>New\<close> registers no other), an
  emit call with a negative severity does not panic and writes nothing: standard output and every file keep their bytes. The range check lets
  the index through and the threshold test stops it before \<^verbatim>\<open>l.loggers[level]\<close>. A logger
  with a file path still counts the call: the counter is one more than before, or zero
  when that reaches the check interval; a logger without a file path is left as it was.
\<close>

theorem printCommon_negative_level:
  assumes "0 \<le> level l" "lv < 0"
  shows "\<exists>w' l'. printCommon w (Some l) lv s = Inr (w', Some l') \<and>
           no_bytes_written w w' \<and>
           (if filePath l = [] then l' = l
            else writesSinceCheckRotate l' =
                   (if checkLogSize l \<le> writesSinceCheckRotate l + 1 then 0
                    else writesSinceCheckRotate l + 1))"
proof -
  obtain w' l' where c: "countAndCheck w l = (w', l')"
    by (cases "countAndCheck w l")
  from assms have "lv < int (length (levels l))" "lv < level l"
    by simp_all
  then have p: "printCommon w (Some l) lv s = Inr (w', Some l')"
    by (simp add: printCommon_filtered c)
  from c have q: "no_bytes_written w w'"
    using countAndCheck_quiet quiet_def by blast
  show ?thesis
  proof (cases "filePath l = []")
    case True
    with c have "l' = l"
      by (simp add: countAndCheck_no_path)
    with p q True show ?thesis
      by simp
  next
    case False
    with p q countAndCheck_counter [OF False c] show ?thesis
      by simp
  qed
qed

theorem printCommon_negative_level_witness:
  "0 \<le> level fileLogger \<and> (- 1 :: int) < 0 \<and>
   (\<exists>w' l'. printCommon logWorld (Some fileLogger) (- 1) ''hello'' = Inr (w', Some l') \<and>
      no_bytes_written logWorld w' \<and> writesSinceCheckRotate l' = 1)"
proof -
  have h: "0 \<le> level fileLogger" "(- 1 :: int) < 0"
    by (simp_all add: fileLogger_def)
  have v: "filePath fileLogger \<noteq> []" "checkLogSize fileLogger = 2"
    "writesSinceCheckRotate fileLogger = 0"
    by (simp_all add: fileLogger_def)
  from printCommon_negative_level [OF h, of logWorld "''hello''"] h show ?thesis
    by (simp add: v)
qed

subsection \<open>The counter of writes since the last size check\<close>

text \<open>
  C4. On a logger with its per-level loggers in place and a check interval of at least
  one, an emit call with a severity index inside the labels does not panic, whether or
  not the message passes the level filter. With a file path the counter is one more than
  before, or zero when that reaches the check interval, so after the call it is strictly
  below the interval. With an empty file path the logger is the same after the call (the
  counter is not incremented) and no size check has run: no name, no handle and no file
  has been added or removed.
\<close>

theorem counter_below_interval:
  assumes "ready l" "0 \<le> lv" "lv < int (length (levels l))" "0 < checkLogSize l"
  shows "\<exists>w' l'. printCommon w (Some l) lv s = Inr (w', Some l') \<and>
           checkLogSize l' = checkLogSize l \<and> filePath l' = filePath l \<and>
           (if filePath l = []
            then l' = l \<and> entries w' = entries w \<and> handles w' = handles w \<and>
                 length (inodes w') = length (inodes w) \<and> stdout_open w' = stdout_open w
            else writesSinceCheckRotate l' =
                   (if checkLogSize l \<le> writesSinceCheckRotate l + 1 then 0
                    else writesSinceCheckRotate l + 1) \<and>
                 writesSinceCheckRotate l' < checkLogSize l')"
proof -
  let ?w1 = "if level l \<le> lv
             then (case file_Write w (file' l)
                          (logLine (hdr w (flags l)) (levels l ! nat lv @ '': '') (flags l) s) of
                     Inl e \<Rightarrow> w | Inr w1 \<Rightarrow> w1)
             else w"
  obtain w' l' where c: "countAndCheck ?w1 l = (w', l')"
    by (cases "countAndCheck ?w1 l")
  have p: "printCommon w (Some l) lv s = Inr (w', Some l')"
  proof (cases "level l \<le> lv")
    case True
    with c show ?thesis
      by (simp add: printCommon_passed [OF assms(1,2,3)])
  next
    case False
    with assms(3) c show ?thesis
      by (simp add: printCommon_filtered)
  qed
  from countAndCheck_config [OF c] have cfg: "checkLogSize l' = checkLogSize l" "filePath l' = filePath l"
    by (simp_all add: same_config_def)
  show ?thesis
  proof (cases "filePath l = []")
    case True
    from c have "(?w1, l) = (w', l')"
      unfolding countAndCheck_no_path [OF True] .
    then have e: "l' = l" "w' = ?w1"
      by blast+
    have "entries ?w1 = entries w \<and> handles ?w1 = handles w \<and>
          length (inodes ?w1) = length (inodes w) \<and> stdout_open ?w1 = stdout_open w"
      by (cases "file' l"; cases "the (file' l)") (auto split: sum.splits if_splits)
    with p e True show ?thesis
      by simp
  next
    case False
    from countAndCheck_counter [OF False c] assms(4) cfg
    have "writesSinceCheckRotate l' =
                   (if checkLogSize l \<le> writesSinceCheckRotate l + 1 then 0
                    else writesSinceCheckRotate l + 1) \<and>
                 writesSinceCheckRotate l' < checkLogSize l'"
      by (simp split: if_splits)
    with p cfg False show ?thesis
      by simp
  qed
qed

theorem counter_below_interval_witness:
  "ready fileLogger \<and> (0::int) \<le> 0 \<and> 0 < int (length (levels fileLogger)) \<and>
   0 < checkLogSize fileLogger \<and>
   (\<exists>w' l'. printCommon logWorld (Some fileLogger) 0 ''hello'' = Inr (w', Some l') \<and>
      writesSinceCheckRotate l' = 1 \<and> writesSinceCheckRotate l' < checkLogSize l')"
proof -
  have h: "0 < int (length (levels fileLogger))" "0 < checkLogSize fileLogger"
    by (simp_all add: fileLogger_def DefaultLevels_def)
  have v: "filePath fileLogger \<noteq> []" "checkLogSize fileLogger = 2"
    "writesSinceCheckRotate fileLogger = 0"
    by (simp_all add: fileLogger_def)
  from counter_below_interval [OF fileLogger_ready _ h, of logWorld "''hello''"]
  have "\<exists>w' l'. printCommon logWorld (Some fileLogger) 0 ''hello'' = Inr (w', Some l') \<and>
      writesSinceCheckRotate l' = 1 \<and> writesSinceCheckRotate l' < checkLogSize l'"
    by (auto simp: v)
  with fileLogger_ready h show ?thesis
    by simp
qed

subsection \<open>The level filter\<close>

lemma appended_Nil: "appended w f [] = w"
  by (cases f) simp_all








subsection \<open>The size check and the switch of slot\<close>

lemma slotPath_0_1 [simp]: "slotPath l 0 \<noteq> slotPath l 1" "slotPath l 1 \<noteq> slotPath l 0"
  by (simp_all add: slotPath_def Itoa_0 Itoa_1)

lemma file_Close_open:
  assumes "is_open w f"
  shows "\<exists>wc. file_Close w f = Inr wc \<and> \<not> is_open wc f \<and>
           entries wc = entries w \<and> inodes wc = inodes w \<and>
           length (handles wc) = length (handles w) \<and>
           open_denied wc = open_denied w \<and>
           (\<forall>x. \<not> is_open (wc\<lparr>handles := handles wc @ [x]\<rparr>) f)"
  using assms by (cases f) (auto simp: nth_append)

lemma openFileAndInitialize_fresh_slot:
  assumes "filePath l \<noteq> []" "file' l = Some f" "is_open w f"
    and "entries w (slotPath l (rotation l)) = None"
    and "\<not> open_denied w (slotPath l (rotation l))"
  shows "\<exists>w' l'. openFileAndInitialize w l = (None, w', l') \<and>
           writesSinceCheckRotate l' = 0 \<and> rotation l' = rotation l \<and> ready l' \<and>
           file' l' = Some (Fd (length (handles w))) \<and>
           is_open w' (Fd (length (handles w))) \<and> \<not> is_open w' f \<and>
           entries w' = (entries w)(slotPath l (rotation l) \<mapsto> length (inodes w)) \<and>
           inodes w' = inodes w @ [[]] \<and>
           fst (handles w' ! length (handles w)) = length (inodes w)"
proof -
  from file_Close_open [OF assms(3)] obtain wc where
    c: "file_Close w f = Inr wc" and nc: "\<not> is_open wc f"
    and e: "entries wc = entries w" and i: "inodes wc = inodes w"
    and h: "length (handles wc) = length (handles w)"
    and d: "open_denied wc = open_denied w"
    and a: "\<forall>x. \<not> is_open (wc\<lparr>handles := handles wc @ [x]\<rparr>) f"
    by blast
  let ?l2 = "l\<lparr>writesSinceCheckRotate := 0, loggers := map (\<lambda>_. None) (loggers l)\<rparr>"
  have s: "Shutdown w (l\<lparr>writesSinceCheckRotate := 0\<rparr>) = (None, wc, ?l2)"
    using assms(2) c by (simp add: Shutdown_def)
  have o: "os_OpenFile wc (slotPath l (rotation l)) =
             Inr (wc\<lparr>entries := (entries wc)(slotPath l (rotation l) \<mapsto> length (inodes wc)),
                     inodes := inodes wc @ [[]],
                     handles := handles wc @ [(length (inodes wc), True)]\<rparr>,
                  Fd (length (handles wc)))"
    using assms(4,5) e d by (simp add: os_OpenFile_def)
  have r: "openFileAndInitialize w l =
          (None, wc\<lparr>entries := (entries wc)(slotPath l (rotation l) \<mapsto> length (inodes wc)),
                     inodes := inodes wc @ [[]],
                     handles := handles wc @ [(length (inodes wc), True)]\<rparr>,
           initializeLoggers (?l2\<lparr>file' := Some (Fd (length (handles wc)))\<rparr>))"
    unfolding openFileAndInitialize_file [OF assms(1,2) s] o by simp
  from a have "\<not> is_open (wc\<lparr>handles := handles wc @ [(length (inodes wc), True)]\<rparr>) f"
    by blast
  then have nf: "\<not> is_open (wc\<lparr>entries := (entries wc)(slotPath l (rotation l) \<mapsto> length (inodes wc)),
                     inodes := inodes wc @ [[]],
                     handles := handles wc @ [(length (inodes wc), True)]\<rparr>) f"
    by (cases f) simp_all
  show ?thesis
    unfolding r using nf e i
    by (simp add: initializeLoggers_def ready_def h [symmetric])
qed

text \<open>
  The switch itself, for a logger in slot 0 or 1 whose active file is larger than the
  maximum size, when removing and opening the other slot's file are not refused.
\<close>

lemma checkSizeAndRotate_switches_slot:
  assumes "filePath l \<noteq> []" "rotation l = 0 \<or> rotation l = 1"
    and "\<not> stat_denied w (slotPath l (rotation l))"
    and "entries w (slotPath l (rotation l)) = Some i" "i < length (inodes w)"
    and "maxLogSize l < int (length (inodes w ! i))"
    and "\<not> remove_denied w (slotPath l (1 - rotation l))"
    and "\<not> open_denied w (slotPath l (1 - rotation l))"
    and "file' l = Some f" "is_open w f"
  shows "\<exists>w' l'. checkSizeAndRotate w l = (None, w', l') \<and>
           writesSinceCheckRotate l' = 0 \<and> rotation l' = 1 - rotation l \<and>
           same_config l l' \<and> ready l' \<and>
           file' l' = Some (Fd (length (handles w))) \<and>
           is_open w' (Fd (length (handles w))) \<and> \<not> is_open w' f \<and>
           entries w' = (entries w)(slotPath l (1 - rotation l) \<mapsto> length (inodes w)) \<and>
           inodes w' = inodes w @ [[]] \<and>
           bytes_at w' (Fd (length (handles w))) = [] \<and>
           file_at w' (slotPath l (1 - rotation l)) = Some [] \<and>
           file_at w' (slotPath l (rotation l)) = file_at w (slotPath l (rotation l))"
proof -
  let ?p = "slotPath l (rotation l)"
  let ?q = "slotPath l (1 - rotation l)"
  let ?wr = "w\<lparr>entries := (entries w)(?q := None)\<rparr>"
  let ?l3 = "l\<lparr>writesSinceCheckRotate := 0, rotation := 1 - rotation l\<rparr>"
  from assms(2) have r: "(if maxRotations \<le> rotation l + 1 then 0 else rotation l + 1) = 1 - rotation l"
    by (auto simp: maxRotations_def)
  from assms(2) have pq: "?p \<noteq> ?q"
    by auto
  have st: "os_Stat w ?p = Inr (int (length (inodes w ! i)))"
    using assms(3,4) by (simp add: os_Stat_def)
  have u: "checkSizeAndRotate w l = openFileAndInitialize ?wr ?l3"
  proof (cases "entries w ?q")
    case None
    then have "(entries w)(?q := None) = entries w"
      by (simp add: fun_upd_idem)
    then have "?wr = w"
      by simp
    moreover from None have "os_Remove w ?q = Inl ENOENT"
      using assms(7) by (simp add: os_Remove_def)
    ultimately show ?thesis
      unfolding checkSizeAndRotate_unfold [OF assms(1)] st r using assms(6) by simp
  next
    case (Some j)
    then have "os_Remove w ?q = Inr ?wr"
      using assms(7) by (simp add: os_Remove_def)
    then show ?thesis
      unfolding checkSizeAndRotate_unfold [OF assms(1)] st r using assms(6) by simp
  qed
  have "\<exists>w' l'. openFileAndInitialize ?wr ?l3 = (None, w', l') \<and>
           writesSinceCheckRotate l' = 0 \<and> rotation l' = rotation ?l3 \<and> ready l' \<and>
           file' l' = Some (Fd (length (handles ?wr))) \<and>
           is_open w' (Fd (length (handles ?wr))) \<and> \<not> is_open w' f \<and>
           entries w' = (entries ?wr)(slotPath ?l3 (rotation ?l3) \<mapsto> length (inodes ?wr)) \<and>
           inodes w' = inodes ?wr @ [[]] \<and>
           fst (handles w' ! length (handles ?wr)) = length (inodes ?wr)"
  proof (rule openFileAndInitialize_fresh_slot)
    show "filePath ?l3 \<noteq> []" using assms(1) by simp
    show "file' ?l3 = Some f" using assms(9) by simp
    show "is_open ?wr f" using assms(10) by (cases f) simp_all
    show "entries ?wr (slotPath ?l3 (rotation ?l3)) = None" by simp
    show "\<not> open_denied ?wr (slotPath ?l3 (rotation ?l3))" using assms(8) by simp
  qed
  then obtain w' l' where o: "openFileAndInitialize ?wr ?l3 = (None, w', l')"
    and c: "writesSinceCheckRotate l' = 0" "rotation l' = 1 - rotation l" "ready l'"
      "file' l' = Some (Fd (length (handles w)))"
      "is_open w' (Fd (length (handles w)))" "\<not> is_open w' f"
    and e: "entries w' = (entries w)(?q \<mapsto> length (inodes w))"
    and n: "inodes w' = inodes w @ [[]]"
    and h: "fst (handles w' ! length (handles w)) = length (inodes w)"
    by auto
  from o have "same_config ?l3 l'"
    by (rule openFileAndInitialize_config)
  then have cfg: "same_config l l'"
    by (simp add: same_config_def)
  have b: "bytes_at w' (Fd (length (handles w))) = []"
    using h n by simp
  have fq: "file_at w' ?q = Some []"
    using e n by (simp add: file_at_def)
  have fp: "file_at w' ?p = file_at w ?p"
    using e n pq assms(4,5) by (simp add: file_at_def nth_append)
  from u o c e n cfg b fq fp show ?thesis
    by simp
qed

lemma appended_fields:
  "entries (appended w f bs) = entries w"
  "handles (appended w f bs) = handles w"
  "length (inodes (appended w f bs)) = length (inodes w)"
  "stat_denied (appended w f bs) = stat_denied w"
  "remove_denied (appended w f bs) = remove_denied w"
  "open_denied (appended w f bs) = open_denied w"
  "is_open (appended w f bs) g = is_open w g"
  by (cases f; cases g; simp)+

text \<open>
  C2. An emit call on a logger with a file path, in slot 0 or 1, with its per-level
  loggers in place and its file open, when the incremented counter reaches the check
  interval and the active slot's file (with the line of this call, if one is written) is
  strictly larger than the maximum size, and when \<^verbatim>\<open>os.Stat\<close> of the active file and
  removing and opening the other slot's file are not refused. The counter is zero after
  the call and the slot is the other one (0 to 1, 1 to 0). The other slot's old file, if
  there was one, is gone: its path names a new, empty file, which is the logger's open
  file, with the per-level loggers on it. The handle held before is closed. The file of
  the slot left behind has its name and the bytes it had when the size was checked, and
  so has every other file.
\<close>

theorem emit_rotates_when_over_maximum:
  fixes s :: string
  assumes "ready l" "0 \<le> lv" "lv < int (length (levels l))"
    and "file' l = Some f" "is_open w f"
    and "filePath l \<noteq> []" "rotation l = 0 \<or> rotation l = 1"
    and "checkLogSize l \<le> writesSinceCheckRotate l + 1"
  defines "w1 \<equiv> appended w f
                   (if level l \<le> lv
                    then logLine (hdr w (flags l)) (levels l ! nat lv @ '': '') (flags l) s
                    else [])"
  assumes "\<not> stat_denied w (slotPath l (rotation l))"
    and "entries w (slotPath l (rotation l)) = Some i" "i < length (inodes w)"
    and "maxLogSize l < int (length (inodes w1 ! i))"
    and "\<not> remove_denied w (slotPath l (1 - rotation l))"
    and "\<not> open_denied w (slotPath l (1 - rotation l))"
  shows "\<exists>w' l'. printCommon w (Some l) lv s = Inr (w', Some l') \<and>
           writesSinceCheckRotate l' = 0 \<and> rotation l' = 1 - rotation l \<and>
           same_config l l' \<and> ready l' \<and>
           file' l' = Some (Fd (length (handles w))) \<and>
           is_open w' (Fd (length (handles w))) \<and> \<not> is_open w' f \<and>
           entries w' = (entries w)(slotPath l (1 - rotation l) \<mapsto> length (inodes w)) \<and>
           inodes w' = inodes w1 @ [[]] \<and>
           bytes_at w' (Fd (length (handles w))) = [] \<and>
           file_at w' (slotPath l (1 - rotation l)) = Some [] \<and>
           file_at w' (slotPath l (rotation l)) = file_at w1 (slotPath l (rotation l))"
proof -
  let ?l1 = "l\<lparr>writesSinceCheckRotate := writesSinceCheckRotate l + 1\<rparr>"
  have "\<exists>w' l'. checkSizeAndRotate w1 ?l1 = (None, w', l') \<and>
           writesSinceCheckRotate l' = 0 \<and> rotation l' = 1 - rotation ?l1 \<and>
           same_config ?l1 l' \<and> ready l' \<and>
           file' l' = Some (Fd (length (handles w1))) \<and>
           is_open w' (Fd (length (handles w1))) \<and> \<not> is_open w' f \<and>
           entries w' = (entries w1)(slotPath ?l1 (1 - rotation ?l1) \<mapsto> length (inodes w1)) \<and>
           inodes w' = inodes w1 @ [[]] \<and>
           bytes_at w' (Fd (length (handles w1))) = [] \<and>
           file_at w' (slotPath ?l1 (1 - rotation ?l1)) = Some [] \<and>
           file_at w' (slotPath ?l1 (rotation ?l1)) = file_at w1 (slotPath ?l1 (rotation ?l1))"
  proof (rule checkSizeAndRotate_switches_slot)
    show "filePath ?l1 \<noteq> []" using assms(6) by simp
    show "rotation ?l1 = 0 \<or> rotation ?l1 = 1" using assms(7) by simp
    show "\<not> stat_denied w1 (slotPath ?l1 (rotation ?l1))"
      using assms(10) by (simp add: w1_def appended_fields)
    show "entries w1 (slotPath ?l1 (rotation ?l1)) = Some i"
      using assms(11) by (simp add: w1_def appended_fields)
    show "i < length (inodes w1)"
      using assms(12) by (simp add: w1_def appended_fields)
    show "maxLogSize ?l1 < int (length (inodes w1 ! i))"
      using assms(13) by simp
    show "\<not> remove_denied w1 (slotPath ?l1 (1 - rotation ?l1))"
      using assms(14) by (simp add: w1_def appended_fields)
    show "\<not> open_denied w1 (slotPath ?l1 (1 - rotation ?l1))"
      using assms(15) by (simp add: w1_def appended_fields)
    show "file' ?l1 = Some f" using assms(4) by simp
    show "is_open w1 f" using assms(5) by (simp only: w1_def appended_fields)
  qed
  then obtain w' l' where r: "checkSizeAndRotate w1 ?l1 = (None, w', l')"
    and c: "writesSinceCheckRotate l' = 0" "rotation l' = 1 - rotation l"
      "same_config ?l1 l'" "ready l'"
      "file' l' = Some (Fd (length (handles w)))"
      "is_open w' (Fd (length (handles w)))" "\<not> is_open w' f"
      "entries w' = (entries w)(slotPath l (1 - rotation l) \<mapsto> length (inodes w))"
      "inodes w' = inodes w1 @ [[]]"
      "bytes_at w' (Fd (length (handles w))) = []"
      "file_at w' (slotPath l (1 - rotation l)) = Some []"
      "file_at w' (slotPath l (rotation l)) = file_at w1 (slotPath l (rotation l))"
    by (auto simp del: is_open.simps bytes_at.simps simp add: w1_def appended_fields)
  from c(3) have cfg: "same_config l l'"
    by (simp add: same_config_def)
  from r assms(6,8) have cc: "countAndCheck w1 l = (w', l')"
    by (simp add: countAndCheck_def)
  have p: "printCommon w (Some l) lv s = Inr (w', Some l')"
  proof (cases "level l \<le> lv")
    case True
    with cc assms(4,5) show ?thesis
      by (simp add: printCommon_passed [OF assms(1,2,3)] file_Write_open w1_def)
  next
    case False
    with cc assms(3) show ?thesis
      by (simp add: printCommon_filtered appended_Nil w1_def)
  qed
  from p c cfg show ?thesis
    by blast
qed


theorem emit_rotates_when_over_maximum_witness:
  "ready dueLogger \<and> (0::int) \<le> 1 \<and> 1 < int (length (levels dueLogger)) \<and>
   file' dueLogger = Some (Fd 0) \<and> is_open logWorld (Fd 0) \<and>
   filePath dueLogger \<noteq> [] \<and> rotation dueLogger = 0 \<and>
   checkLogSize dueLogger \<le> writesSinceCheckRotate dueLogger + 1 \<and>
   \<not> stat_denied logWorld ''log.0'' \<and> entries logWorld ''log.0'' = Some 0 \<and>
   0 < length (inodes logWorld) \<and>
   maxLogSize dueLogger < int (length (''info: hello'' @ [newline])) \<and>
   \<not> remove_denied logWorld ''log.1'' \<and> \<not> open_denied logWorld ''log.1'' \<and>
   (\<exists>w' l'. printCommon logWorld (Some dueLogger) 1 ''hello'' = Inr (w', Some l') \<and>
      writesSinceCheckRotate l' = 0 \<and> rotation l' = 1 \<and> file' l' = Some (Fd 1) \<and>
      is_open w' (Fd 1) \<and> \<not> is_open w' (Fd 0) \<and>
      file_at w' ''log.1'' = Some [] \<and>
      file_at w' ''log.0'' = Some (''info: hello'' @ [newline]))"
proof -
  have sp: "slotPath dueLogger 0 = ''log.0''" "slotPath dueLogger 1 = ''log.1''"
    by (simp_all add: slotPath_def dueLogger_def fileLogger_def Itoa_0 Itoa_1)
  have v: "rotation dueLogger = 0" "level dueLogger = 1" "flags dueLogger = 0"
    "hdr logWorld 0 = []" "levels dueLogger ! nat 1 = ''info''"
    "length (handles logWorld) = 1" "maxLogSize dueLogger = 10"
    by (simp_all add: dueLogger_def fileLogger_def logWorld_def emptyWorld_def DefaultLevels_def)
  have ln: "logLine [] ''info: '' 0 ''hello'' = ''info: hello'' @ [newline]"
    by (simp add: logLine_def newline_def)
  have w1: "appended logWorld (Fd 0) (''info: hello'' @ [newline]) =
              logWorld\<lparr>inodes := [''info: hello'' @ [newline]]\<rparr>"
    by (simp add: logWorld_def emptyWorld_def)
  have h: "ready dueLogger" "(0::int) \<le> 1" "1 < int (length (levels dueLogger))"
    "file' dueLogger = Some (Fd 0)" "is_open logWorld (Fd 0)"
    "filePath dueLogger \<noteq> []" "rotation dueLogger = 0 \<or> rotation dueLogger = 1"
    "checkLogSize dueLogger \<le> writesSinceCheckRotate dueLogger + 1"
    by (simp_all add: ready_def dueLogger_def fileLogger_def logWorld_def emptyWorld_def
        DefaultLevels_def)
  have g: "\<not> stat_denied logWorld (slotPath dueLogger (rotation dueLogger))"
    "entries logWorld (slotPath dueLogger (rotation dueLogger)) = Some 0"
    "0 < length (inodes logWorld)"
    "maxLogSize dueLogger
       < int (length (inodes (appended logWorld (Fd 0)
                (if level dueLogger \<le> 1
                 then logLine (hdr logWorld (flags dueLogger))
                        (levels dueLogger ! nat 1 @ '': '') (flags dueLogger) ''hello''
                 else [])) ! 0))"
    "\<not> remove_denied logWorld (slotPath dueLogger (1 - rotation dueLogger))"
    "\<not> open_denied logWorld (slotPath dueLogger (1 - rotation dueLogger))"
    unfolding v sp
    by (simp_all add: ln w1 sp) (simp_all add: logWorld_def emptyWorld_def)
  from emit_rotates_when_over_maximum [OF h g]
  obtain w' l' where "printCommon logWorld (Some dueLogger) 1 ''hello'' = Inr (w', Some l')"
    and "writesSinceCheckRotate l' = 0" "rotation l' = 1 - rotation dueLogger"
    and "file' l' = Some (Fd (length (handles logWorld)))"
    and "is_open w' (Fd (length (handles logWorld)))" "\<not> is_open w' (Fd 0)"
    and "file_at w' (slotPath dueLogger (1 - rotation dueLogger)) = Some []"
    and "file_at w' (slotPath dueLogger (rotation dueLogger)) =
           file_at (appended logWorld (Fd 0)
                (if level dueLogger \<le> 1
                 then logLine (hdr logWorld (flags dueLogger))
                        (levels dueLogger ! nat 1 @ '': '') (flags dueLogger) ''hello''
                 else [])) (slotPath dueLogger (rotation dueLogger))"
    by blast
  then have r: "\<exists>w' l'. printCommon logWorld (Some dueLogger) 1 ''hello'' = Inr (w', Some l') \<and>
      writesSinceCheckRotate l' = 0 \<and> rotation l' = 1 \<and> file' l' = Some (Fd 1) \<and>
      is_open w' (Fd 1) \<and> \<not> is_open w' (Fd 0) \<and>
      file_at w' ''log.1'' = Some [] \<and>
      file_at w' ''log.0'' = Some (''info: hello'' @ [newline])"
    unfolding v
    by (simp del: is_open.simps add: sp ln w1)
       (simp add: file_at_def logWorld_def emptyWorld_def)
  have e: "\<not> stat_denied logWorld ''log.0''" "entries logWorld ''log.0'' = Some 0"
    "\<not> remove_denied logWorld ''log.1''" "\<not> open_denied logWorld ''log.1''"
    "maxLogSize dueLogger < int (length (''info: hello'' @ [newline]))"
    by (simp_all add: logWorld_def emptyWorld_def v)
  from h(1,3,4,5,6,8) v(1) g(3) e r show ?thesis
    by simp
qed

subsection \<open>The slot chosen at construction\<close>

lemma Itoa_2: "Itoa 2 = ''2''"
  by (simp add: Itoa_def natstr_small digit_def)

lemma initializeRotation_result:
  assumes "\<not> stat_denied w (filePath l @ ''.0'')" "\<not> stat_denied w (filePath l @ ''.1'')"
    and "\<not> remove_denied w (filePath l @ ''.0'')"
  shows "initializeRotation w l =
           (if slot_free w (filePath l) (maxLogSize l) 0 then (None, w, l\<lparr>rotation := 0\<rparr>)
            else if slot_free w (filePath l) (maxLogSize l) 1 then (None, w, l\<lparr>rotation := 1\<rparr>)
            else (None, w\<lparr>entries := (entries w)(filePath l @ ''.0'' := None)\<rparr>,
                  l\<lparr>rotation := 0\<rparr>))"
proof -
  have s0: "initializeRotation w l =
      (case os_Stat w (filePath l @ ''.0'') of
         Inl e \<Rightarrow> (None, w, l\<lparr>rotation := 0\<rparr>)
       | Inr sz \<Rightarrow> if sz < maxLogSize l then (None, w, l\<lparr>rotation := 0\<rparr>)
                   else initializeRotation_from w l 1)"
    by (simp add: initializeRotation_def initializeRotation_from.simps [of w l 0]
        maxRotations_def Itoa_0 split: sum.split)
  have s1: "initializeRotation_from w l 1 =
      (case os_Stat w (filePath l @ ''.1'') of
         Inl e \<Rightarrow> (None, w, l\<lparr>rotation := 1\<rparr>)
       | Inr sz \<Rightarrow> if sz < maxLogSize l then (None, w, l\<lparr>rotation := 1\<rparr>)
                   else initializeRotation_from w l 2)"
    by (simp add: initializeRotation_from.simps [of w l 1] maxRotations_def Itoa_1
        split: sum.split)
  have s2: "initializeRotation_from w l 2 =
      (case os_Remove w (filePath l @ ''.0'') of
         Inl e \<Rightarrow> (Some (OsError e), w, l\<lparr>rotation := 0\<rparr>)
       | Inr w' \<Rightarrow> (None, w', l\<lparr>rotation := 0\<rparr>))"
    by (simp add: initializeRotation_from.simps [of w l 2] maxRotations_def)
  show ?thesis
    unfolding s0 s1 s2 using assms
    by (simp add: slot_free_def os_Stat_def os_Remove_def Itoa_0 Itoa_1 split: option.split)
qed

lemma Shutdown_world:
  assumes "Shutdown w l = (e, w1, l1)"
  shows "entries w1 = entries w \<and> inodes w1 = inodes w \<and>
         length (handles w1) = length (handles w) \<and>
         stat_denied w1 = stat_denied w \<and> remove_denied w1 = remove_denied w \<and>
         open_denied w1 = open_denied w \<and> mkdir_denied w1 = mkdir_denied w"
proof (cases "file' l")
  case None
  with assms show ?thesis
    by (auto simp: Shutdown_def)
next
  case (Some f)
  with assms show ?thesis
    by (cases f) (auto simp: Shutdown_def split: if_splits)
qed


lemma openFileAndInitialize_first:
  assumes "filePath l \<noteq> []" "file' l = None"
    and "\<not> open_denied w (slotPath l (rotation l))"
  shows "\<exists>w' l'. openFileAndInitialize w l = (None, w', l') \<and>
           rotation l' = rotation l \<and> ready l' \<and>
           file' l' = Some (Fd (length (handles w))) \<and>
           is_open w' (Fd (length (handles w))) \<and>
           file_at w' (slotPath l (rotation l)) = Some (bytes_at w' (Fd (length (handles w)))) \<and>
           (if entries w (slotPath l (rotation l)) \<noteq> None
            then entries w' = entries w \<and> inodes w' = inodes w
            else entries w' = (entries w)(slotPath l (rotation l) \<mapsto> length (inodes w)) \<and>
                 inodes w' = inodes w @ [[]])"
proof (cases "entries w (slotPath l (rotation l))")
  case None
  with assms(3)
  have "os_OpenFile w (slotPath l (rotation l)) =
          Inr (w\<lparr>entries := (entries w)(slotPath l (rotation l) \<mapsto> length (inodes w)),
                 inodes := inodes w @ [[]],
                 handles := handles w @ [(length (inodes w), True)]\<rparr>,
               Fd (length (handles w)))"
    by (simp add: os_OpenFile_def)
  with None show ?thesis
    unfolding openFileAndInitialize_nofile [OF assms(1,2)]
    by (simp add: initializeLoggers_def ready_def file_at_def)
next
  case (Some j)
  with assms(3)
  have "os_OpenFile w (slotPath l (rotation l)) =
          Inr (w\<lparr>handles := handles w @ [(j, True)]\<rparr>, Fd (length (handles w)))"
    by (simp add: os_OpenFile_def)
  with Some show ?thesis
    unfolding openFileAndInitialize_nofile [OF assms(1,2)]
    by (simp add: initializeLoggers_def ready_def file_at_def)
qed


lemma New_unfold:
  assumes "0 \<le> lvl" "lvl < int (length lvls)"
    and "w1 = (case m name of None \<Rightarrow> w | Some old \<Rightarrow> fst (snd (Shutdown w old)))"
    and "\<not> mkdir_denied w1 fp"
    and "lg = \<lparr>checkLogSize = chk, flags = flgs, level = lvl, levels = lvls,
                levelMaxWidth = 0, loggers = [], file' = None, filePath = fp,
                maxLogSize = maxsz, rotation = 0, writesSinceCheckRotate = 0\<rparr>"
    and "initializeRotation w1 lg = (None, w2, lg2)"
    and "openFileAndInitialize w2 lg2 = (None, w3, lg3)"
  shows "New (w, m) name fp lvls lvl flgs chk maxsz =
           (None, w3,
            m(name \<mapsto> lg3\<lparr>levelMaxWidth :=
                 fold (\<lambda>v mw. if int (length v) > mw then int (length v) else mw)
                   (levels lg3) (levelMaxWidth lg3)\<rparr>))"
  using assms(1,2,4) unfolding New_def Let_def fst_conv snd_conv assms(3) [symmetric]
    assms(5) [symmetric]
  by (simp add: assms(6,7))

lemma world_before_New:
  assumes "w1 = (case m name of None \<Rightarrow> w | Some old \<Rightarrow> fst (snd (Shutdown w old)))"
  shows "entries w1 = entries w \<and> inodes w1 = inodes w \<and>
         length (handles w1) = length (handles w) \<and>
         stat_denied w1 = stat_denied w \<and> remove_denied w1 = remove_denied w \<and>
         open_denied w1 = open_denied w \<and> mkdir_denied w1 = mkdir_denied w"
proof (cases "m name")
  case None
  with assms show ?thesis
    by simp
next
  case (Some old)
  obtain e wx lx where s: "Shutdown w old = (e, wx, lx)"
    by (metis prod_cases3)
  with Some assms have "w1 = wx"
    by simp
  with Shutdown_world [OF s] show ?thesis
    by simp
qed

text \<open>
  C3. \<^verbatim>\<open>New\<close> with a valid level and a file path, when the directory can be made,
  \<^verbatim>\<open>os.Stat\<close> fails on the two rotation files only if they are missing, and removing
  \<^verbatim>\<open>.0\<close> and opening either file are not refused. The slot \<open>r\<close> of the registered logger
  is the first of 0 and 1 that is free (its file is missing or strictly smaller than the
  maximum size), and 0 when neither is free. The logger's file is a new open handle on the
  file that the slot's path names afterwards. When a free slot was chosen and its file
  existed, no name and no byte of the file system has changed: the file is opened as it
  is, and writes go to its end. Otherwise the slot's path names a new, empty file: the
  file was missing, or, when neither slot was free, the old \<^verbatim>\<open>.0\<close> has been removed.
\<close>

theorem New_selects_rotation_slot:
  fixes maxsz :: int
  assumes lvl: "0 \<le> lvl" "lvl < int (length lvls)" and fp: "fp \<noteq> []"
    and mk: "\<not> mkdir_denied w fp"
    and st: "\<not> stat_denied w (fp @ ''.0'')" "\<not> stat_denied w (fp @ ''.1'')"
    and rm: "\<not> remove_denied w (fp @ ''.0'')"
    and op: "\<not> open_denied w (fp @ ''.0'')" "\<not> open_denied w (fp @ ''.1'')"
  defines "r \<equiv> (if slot_free w fp maxsz 0 then 0 else if slot_free w fp maxsz 1 then 1 else (0::int))"
  defines "kept \<equiv> (slot_free w fp maxsz 0 \<or> slot_free w fp maxsz 1) \<and>
                    entries w (fp @ ''.'' @ Itoa r) \<noteq> None"
  shows "\<exists>w' l. New (w, m) name fp lvls lvl flgs chk maxsz = (None, w', m(name \<mapsto> l)) \<and>
           rotation l = r \<and> ready l \<and> file' l = Some (Fd (length (handles w))) \<and>
           is_open w' (Fd (length (handles w))) \<and>
           file_at w' (fp @ ''.'' @ Itoa r) = Some (bytes_at w' (Fd (length (handles w)))) \<and>
           (if kept then entries w' = entries w \<and> inodes w' = inodes w
            else entries w' = (entries w)(fp @ ''.'' @ Itoa r \<mapsto> length (inodes w)) \<and>
                 inodes w' = inodes w @ [[]])"
proof -
  define w1 where "w1 = (case m name of None \<Rightarrow> w | Some old \<Rightarrow> fst (snd (Shutdown w old)))"
  define lg where "lg = \<lparr>checkLogSize = chk, flags = flgs, level = lvl, levels = lvls,
                levelMaxWidth = 0, loggers = [], file' = None, filePath = fp,
                maxLogSize = maxsz, rotation = 0, writesSinceCheckRotate = 0\<rparr>"
  define w2 where "w2 = (if slot_free w fp maxsz 0 \<or> slot_free w fp maxsz 1 then w1
                         else w1\<lparr>entries := (entries w1)(fp @ ''.0'' := None)\<rparr>)"
  from world_before_New [where m = m and name = name and w = w, OF w1_def]
  have e1: "entries w1 = entries w" and i1: "inodes w1 = inodes w"
    and h1: "length (handles w1) = length (handles w)"
    and d1: "stat_denied w1 = stat_denied w" "remove_denied w1 = remove_denied w"
      "open_denied w1 = open_denied w" "mkdir_denied w1 = mkdir_denied w"
    by simp_all
  have lgf: "filePath lg = fp" "maxLogSize lg = maxsz" "file' lg = None"
    by (simp_all add: lg_def)
  have sf: "slot_free w1 fp maxsz = slot_free w fp maxsz"
    by (rule ext) (simp add: slot_free_def e1 i1 split: option.split)
  have ir: "initializeRotation w1 lg = (None, w2, lg\<lparr>rotation := r\<rparr>)"
    using initializeRotation_result [of w1 lg] st rm
    by (simp add: lgf d1 sf w2_def r_def)
  have rp: "slotPath (lg\<lparr>rotation := r\<rparr>) (rotation (lg\<lparr>rotation := r\<rparr>)) = fp @ ''.'' @ Itoa r"
    by (simp add: slotPath_def lgf)
  have r01: "Itoa r = ''0'' \<or> Itoa r = ''1''"
    by (simp add: r_def Itoa_0 Itoa_1)
  have w2f: "inodes w2 = inodes w" "length (handles w2) = length (handles w)"
    "open_denied w2 = open_denied w"
    by (simp_all add: w2_def i1 h1 d1)
  from r01 op have od: "\<not> open_denied w2 (slotPath (lg\<lparr>rotation := r\<rparr>) (rotation (lg\<lparr>rotation := r\<rparr>)))"
    unfolding rp w2f by auto
  have e2: "entries w2 (fp @ ''.'' @ Itoa r) \<noteq> None \<longleftrightarrow> kept"
    by (auto simp: w2_def kept_def r_def e1 Itoa_0)
  have e2': "\<not> kept \<Longrightarrow> (entries w2)(fp @ ''.'' @ Itoa r \<mapsto> length (inodes w)) =
                (entries w)(fp @ ''.'' @ Itoa r \<mapsto> length (inodes w))"
    by (auto simp: w2_def kept_def r_def e1 Itoa_0)
  have e2'': "kept \<Longrightarrow> entries w2 = entries w"
    by (auto simp: w2_def kept_def e1)
  from openFileAndInitialize_first [of "lg\<lparr>rotation := r\<rparr>" w2, OF _ _ od]
  obtain w' l' where o: "openFileAndInitialize w2 (lg\<lparr>rotation := r\<rparr>) = (None, w', l')"
    and c: "rotation l' = r" "ready l'" "file' l' = Some (Fd (length (handles w)))"
      "is_open w' (Fd (length (handles w)))"
      "file_at w' (fp @ ''.'' @ Itoa r) = Some (bytes_at w' (Fd (length (handles w))))"
    and k: "if entries w2 (fp @ ''.'' @ Itoa r) \<noteq> None
            then entries w' = entries w2 \<and> inodes w' = inodes w
            else entries w' = (entries w2)(fp @ ''.'' @ Itoa r \<mapsto> length (inodes w)) \<and>
                 inodes w' = inodes w @ [[]]"
    unfolding rp w2f using fp by (auto simp: lgf)
  from k e2 e2' e2''
  have k': "if kept then entries w' = entries w \<and> inodes w' = inodes w
            else entries w' = (entries w)(fp @ ''.'' @ Itoa r \<mapsto> length (inodes w)) \<and>
                 inodes w' = inodes w @ [[]]"
    by (simp split: if_splits)
  from mk have mk1: "\<not> mkdir_denied w1 fp"
    by (simp add: d1)
  let ?l = "l'\<lparr>levelMaxWidth :=
                 fold (\<lambda>v mw. if int (length v) > mw then int (length v) else mw)
                   (levels l') (levelMaxWidth l')\<rparr>"
  have n: "New (w, m) name fp lvls lvl flgs chk maxsz = (None, w', m(name \<mapsto> ?l))"
    by (rule New_unfold [where m = m and name = name and w = w, OF lvl w1_def mk1 lg_def ir o])
  from c have c': "rotation ?l = r" "ready ?l" "file' ?l = Some (Fd (length (handles w)))"
    by (simp_all add: ready_def)
  from n c' c(4,5) k' show ?thesis
    by blast
qed


theorem New_selects_rotation_slot_witness:
  "(0::int) \<le> 0 \<and> 0 < int (length DefaultLevels) \<and> ''log'' \<noteq> [] \<and>
   \<not> mkdir_denied fullWorld ''log'' \<and>
   \<not> stat_denied fullWorld ''log.0'' \<and> \<not> stat_denied fullWorld ''log.1'' \<and>
   \<not> remove_denied fullWorld ''log.0'' \<and>
   \<not> open_denied fullWorld ''log.0'' \<and> \<not> open_denied fullWorld ''log.1'' \<and>
   (\<exists>w' l. New (fullWorld, Map.empty) ''app'' ''log'' DefaultLevels 0 0 2 1000 =
             (None, w', [''app'' \<mapsto> l]) \<and>
      rotation l = 0 \<and> file' l = Some (Fd 1) \<and>
      file_at w' ''log.0'' = Some (bytes_at w' (Fd 1)) \<and>
      entries w' = entries fullWorld \<and> inodes w' = [''info: hello'' @ [newline]]) \<and>
   (\<exists>w' l. New (bothFullWorld, Map.empty) ''app'' ''log'' DefaultLevels 0 0 2 10 =
             (None, w', [''app'' \<mapsto> l]) \<and>
      rotation l = 0 \<and> file' l = Some (Fd 0) \<and>
      file_at w' ''log.0'' = Some (bytes_at w' (Fd 0)) \<and>
      entries w' ''log.0'' = Some 2 \<and> entries w' ''log.1'' = Some 1 \<and>
      inodes w' = [''info: hello'' @ [newline], ''info: world'' @ [newline], []])"
proof -
  have h: "(0::int) \<le> 0" "0 < int (length DefaultLevels)" "''log'' \<noteq> []"
    by (simp_all add: DefaultLevels_def)
  have a: "\<not> mkdir_denied fullWorld ''log''"
    "\<not> stat_denied fullWorld (''log'' @ ''.0'')" "\<not> stat_denied fullWorld (''log'' @ ''.1'')"
    "\<not> remove_denied fullWorld (''log'' @ ''.0'')"
    "\<not> open_denied fullWorld (''log'' @ ''.0'')" "\<not> open_denied fullWorld (''log'' @ ''.1'')"
    by (simp_all add: fullWorld_def logWorld_def emptyWorld_def)
  have b: "\<not> mkdir_denied bothFullWorld ''log''"
    "\<not> stat_denied bothFullWorld (''log'' @ ''.0'')"
    "\<not> stat_denied bothFullWorld (''log'' @ ''.1'')"
    "\<not> remove_denied bothFullWorld (''log'' @ ''.0'')"
    "\<not> open_denied bothFullWorld (''log'' @ ''.0'')"
    "\<not> open_denied bothFullWorld (''log'' @ ''.1'')"
    by (simp_all add: bothFullWorld_def emptyWorld_def)
  have fa: "slot_free fullWorld ''log'' 1000 0" "entries fullWorld ''log.0'' \<noteq> None"
    "length (handles fullWorld) = 1" "inodes fullWorld = [''info: hello'' @ [newline]]"
    by (simp_all add: slot_free_def Itoa_0 fullWorld_def logWorld_def emptyWorld_def)
  have fb: "\<not> slot_free bothFullWorld ''log'' 10 0" "\<not> slot_free bothFullWorld ''log'' 10 1"
    "length (handles bothFullWorld) = 0"
    "inodes bothFullWorld = [''info: hello'' @ [newline], ''info: world'' @ [newline]]"
    "entries bothFullWorld ''log.1'' = Some 1"
    by (auto simp: slot_free_def Itoa_0 Itoa_1 bothFullWorld_def emptyWorld_def)
  from New_selects_rotation_slot
         [where maxsz = 1000 and m = Map.empty and name = "''app''" and flgs = 0 and chk = 2,
          OF h a]
  have ra: "\<exists>w' l. New (fullWorld, Map.empty) ''app'' ''log'' DefaultLevels 0 0 2 1000 =
             (None, w', [''app'' \<mapsto> l]) \<and>
      rotation l = 0 \<and> file' l = Some (Fd 1) \<and>
      file_at w' ''log.0'' = Some (bytes_at w' (Fd 1)) \<and>
      entries w' = entries fullWorld \<and> inodes w' = [''info: hello'' @ [newline]]"
    by (auto simp del: bytes_at.simps simp add: fa Itoa_0)
  from New_selects_rotation_slot
         [where maxsz = 10 and m = Map.empty and name = "''app''" and flgs = 0 and chk = 2,
          OF h b]
  have rb: "\<exists>w' l. New (bothFullWorld, Map.empty) ''app'' ''log'' DefaultLevels 0 0 2 10 =
             (None, w', [''app'' \<mapsto> l]) \<and>
      rotation l = 0 \<and> file' l = Some (Fd 0) \<and>
      file_at w' ''log.0'' = Some (bytes_at w' (Fd 0)) \<and>
      entries w' ''log.0'' = Some 2 \<and> entries w' ''log.1'' = Some 1 \<and>
      inodes w' = [''info: hello'' @ [newline], ''info: world'' @ [newline], []]"
    by (auto simp del: bytes_at.simps simp add: fb Itoa_0)
  from h a ra rb show ?thesis
    by simp
qed

end
